theory Spec2Isabelle
  imports Complex_Main
begin

section \<open>GraphWave generator: data model\<close>

text \<open>
  The development follows \<^verbatim>\<open>stellargraph/mapper/graphwave_generator.py\<close>.
  NumPy arrays, SciPy sparse matrices and TensorFlow tensors are nested lists, outermost
  axis first; their entries (float32 and float64 in the program) are real numbers.  The
  Laplacian is computed as the program computes it, in binary64 with rounding to nearest,
  ties to even; everywhere else the arithmetic is exact, so rounding is not part of the
  model there.  A nested list does not record the sizes of the axes
  below an axis of size zero; the statements about shapes are therefore about generators
  with at least one eigenpair (\<^verbatim>\<open>eigs\<close> rejects \<open>k \<le> 0\<close>) and about nodes of the
  graph.  Every exception the program or one of the library calls can raise is a value
  \<open>Inl e\<close> of the result type.
\<close>

datatype py_error =
    TypeError string
  | IndexError string
  | ValueError string
  | InvalidArgumentError string
  | OverflowError string
  | ArpackError string

type_synonym vec = "real list"
type_synonym matrix = "real list list"
type_synonym tensor3 = "real list list list"

definition bind :: "py_error + 'a \<Rightarrow> ('a \<Rightarrow> py_error + 'b) \<Rightarrow> py_error + 'b" where
  "bind m f = (case m of Inl e \<Rightarrow> Inl e | Inr v \<Rightarrow> f v)"

subsection \<open>Binary64 arithmetic\<close>

text \<open>
  \<open>round64 x\<close> is the binary64 number nearest to \<open>x\<close>, the one with the even significand
  when two are equally near: with \<open>2\<^sup>e \<le> |x| < 2\<^sup>e\<^sup>+\<^sup>1\<close> the spacing of the binary64
  numbers around \<open>x\<close> is \<open>ulp x = 2\<^sup>e\<^sup>-\<^sup>5\<^sup>2\<close>.  The exponent is not bounded: overflow and
  underflow are not modelled.  An addition or subtraction of two binary64 numbers returns
  the rounded exact result.
\<close>

definition round_half_even :: "real \<Rightarrow> int" where
  "round_half_even y =
     (let f = \<lfloor>y\<rfloor>; r = y - of_int f
      in if r < 1 / 2 then f else if 1 / 2 < r then f + 1 else if even f then f else f + 1)"

definition ulp :: "real \<Rightarrow> real" where
  "ulp x = 2 powr (of_int (\<lfloor>log 2 \<bar>x\<bar>\<rfloor> - 52))"

definition round64 :: "real \<Rightarrow> real" where
  "round64 x = (if x = 0 then 0 else sgn x * (of_int (round_half_even (\<bar>x\<bar> / ulp x)) * ulp x))"


subsection \<open>The Laplacian (lines 53 to 55)\<close>

text \<open>
  \<^verbatim>\<open>adj.sum(1)\<close> followed by \<^verbatim>\<open>flatten()\<close> is the vector of row sums, each
  accumulated entry by entry from zero in binary64; \<^verbatim>\<open>diags(v)\<close> is the square matrix
  with \<open>v\<close> on its diagonal; and the sparse subtraction, which subtracts entry by entry in
  binary64, raises a ValueError when the two shapes differ.
\<close>

definition float_sum :: "vec \<Rightarrow> real" where
  "float_sum r = foldl (\<lambda>acc a. round64 (acc + a)) 0 r"

definition row_sums :: "matrix \<Rightarrow> vec" where
  "row_sums A = map float_sum A"

definition diags :: "vec \<Rightarrow> matrix" where
  "diags d = map (\<lambda>i. map (\<lambda>j. if i = j then d ! i else 0) [0..<length d]) [0..<length d]"

definition sparse_sub :: "matrix \<Rightarrow> matrix \<Rightarrow> py_error + matrix" where
  "sparse_sub A B =
     (if length A = length B \<and> list_all2 (\<lambda>a b. length a = length b) A B
      then Inr (map2 (map2 (\<lambda>x y. round64 (x - y))) A B)
      else Inl (ValueError ''inconsistent shapes''))"

definition laplacian_of :: "matrix \<Rightarrow> py_error + matrix" where
  "laplacian_of adj = (let degree_mat = diags (row_sums adj) in sparse_sub degree_mat adj)"


definition symmetric :: "matrix \<Rightarrow> bool" where
  "symmetric A =
     list_all (\<lambda>i. list_all (\<lambda>j. A ! i ! j = A ! j ! i) [0..<length A]) [0..<length A]"




subsection \<open>Library calls used by the constructor\<close>

text \<open>
  \<^verbatim>\<open>node_types[0]\<close> on a Python list: an empty list raises IndexError.
\<close>

definition first_item :: "'a list \<Rightarrow> py_error + 'a" where
  "first_item xs = (case xs of [] \<Rightarrow> Inl (IndexError ''list index out of range'') | x # _ \<Rightarrow> Inr x)"

text \<open>
  \<^verbatim>\<open>dict(zip(keys, values))\<close>: a partial map; of two entries with one key the later
  one stays.
\<close>

definition dict_zip :: "'k list \<Rightarrow> 'v list \<Rightarrow> ('k \<rightharpoonup> 'v)" where
  "dict_zip ks vs = map_of (rev (zip ks vs))"

text \<open>
  A list comprehension whose body can raise: the first exception ends it.
\<close>

fun map_result :: "('a \<Rightarrow> py_error + 'b) \<Rightarrow> 'a list \<Rightarrow> py_error + 'b list" where
  "map_result f [] = Inr []"
| "map_result f (x # xs) =
     (case f x of
        Inl e \<Rightarrow> Inl e
      | Inr y \<Rightarrow> (case map_result f xs of Inl e \<Rightarrow> Inl e | Inr ys \<Rightarrow> Inr (y # ys)))"

text \<open>
  \<^verbatim>\<open>a.min()\<close> and \<^verbatim>\<open>a.max()\<close> of a one-dimensional array raise a ValueError on an
  array of size zero.
\<close>

definition np_min :: "vec \<Rightarrow> py_error + real" where
  "np_min a =
     (case a of
        [] \<Rightarrow> Inl (ValueError ''zero-size array to reduction operation minimum which has no identity'')
      | x # xs \<Rightarrow> Inr (fold min xs x))"

definition np_max :: "vec \<Rightarrow> py_error + real" where
  "np_max a =
     (case a of
        [] \<Rightarrow> Inl (ValueError ''zero-size array to reduction operation maximum which has no identity'')
      | x # xs \<Rightarrow> Inr (fold max xs x))"

text \<open>
  \<^verbatim>\<open>np.linspace(start, stop, num)\<close> with the default \<^verbatim>\<open>endpoint=True\<close>: a negative
  \<open>num\<close> raises; otherwise with \<open>dv = num - 1\<close>, the values are \<open>i * step + start\<close> with
  \<open>step = (stop - start) / dv\<close> when \<open>dv > 0\<close> and \<open>i * (stop - start) + start\<close>
  otherwise, and for \<open>num > 1\<close> the last value is overwritten with \<open>stop\<close>.
\<close>

definition linspace :: "real \<Rightarrow> real \<Rightarrow> int \<Rightarrow> py_error + vec" where
  "linspace start stop num =
     (if num < 0 then Inl (ValueError ''Number of samples must be non-negative.'')
      else
        let dv = num - 1;
            delta = stop - start;
            y = map real [0..<nat num];
            y = (if dv > 0 then map (\<lambda>i. i * (delta / real_of_int dv) + start) y
                 else map (\<lambda>i. i * delta + start) y)
        in Inr (if num > 1 then y[nat num - 1 := stop] else y))"

text \<open>
  \<^verbatim>\<open>np.diag(v)\<close> of a vector, and \<^verbatim>\<open>A.dot(B)\<close> of two matrices (a ValueError when
  the inner dimensions differ).
\<close>

definition np_diag :: "vec \<Rightarrow> matrix" where
  "np_diag v = map (\<lambda>i. map (\<lambda>j. if i = j then v ! i else 0) [0..<length v]) [0..<length v]"

definition ncols :: "matrix \<Rightarrow> nat" where
  "ncols B = (case B of [] \<Rightarrow> 0 | r # _ \<Rightarrow> length r)"

definition dot :: "matrix \<Rightarrow> matrix \<Rightarrow> py_error + matrix" where
  "dot A B =
     (if list_all (\<lambda>r. length r = length B) A
      then Inr (map (\<lambda>r. map (\<lambda>j. sum_list (map (\<lambda>l. r ! l * B ! l ! j) [0..<length B]))
                              [0..<ncols B]) A)
      else Inl (ValueError ''shapes not aligned''))"

text \<open>
  \<^verbatim>\<open>np.dstack\<close> of a list of matrices of one shape \<open>(N, k)\<close>: the tensor of shape
  \<open>(N, k, S)\<close> whose entry \<open>(i, j, s)\<close> is entry \<open>(i, j)\<close> of the \<open>s\<close>-th matrix.
  An empty list raises, and so do matrices of different shapes.
\<close>

definition same_shape :: "matrix \<Rightarrow> matrix \<Rightarrow> bool" where
  "same_shape A B = (length A = length B \<and> list_all2 (\<lambda>a b. length a = length b) A B)"

definition dstack :: "matrix list \<Rightarrow> py_error + tensor3" where
  "dstack ms =
     (case ms of
        [] \<Rightarrow> Inl (ValueError ''need at least one array to concatenate'')
      | m0 # _ \<Rightarrow>
          if list_all (\<lambda>m. same_shape m m0) ms
          then Inr (map (\<lambda>i. map (\<lambda>j. map (\<lambda>m. m ! i ! j) ms) [0..<length (m0 ! i)])
                        [0..<length m0])
          else Inl (ValueError ''all the input array dimensions must match exactly''))"

subsection \<open>The graph and the generator object\<close>

text \<open>
  \<open>StellarGraph\<close> is defined elsewhere in the package; the constructor reads three things of
  it: \<^verbatim>\<open>list(G.node_types)\<close>, \<^verbatim>\<open>G.nodes_of_type(t)\<close> and
  \<^verbatim>\<open>G.to_adjacency_matrix(nodes)\<close> (with \<open>None\<close> for the call without argument).
  Any other object given as \<open>G\<close> is \<open>OtherObject\<close>.
\<close>

record 'n StellarGraph =
  node_types :: "string list"
  nodes_of_type :: "string \<Rightarrow> 'n list"
  to_adjacency_matrix :: "'n list option \<Rightarrow> matrix"

datatype 'n graph_arg = StellarGraphObject "'n StellarGraph" | OtherObject

datatype scales_arg = Auto | Explicit "real list"

record 'n GraphWaveGenerator =
  node_list :: "'n list"
  Aadj :: matrix
  node_index_dict :: "'n \<rightharpoonup> nat"
  eigen_vals :: vec
  eigen_vecs :: matrix
  scales :: vec
  Ues :: tensor3

text \<open>
  \<^verbatim>\<open>scipy.sparse.linalg.eigs(laplacian, k)\<close>, followed by the real part and the cast
  of lines 61 and 62, is a parameter \<open>eigs\<close> of the constructor: it returns the
  eigenvalues and the matrix whose columns are the eigenvectors, or raises.
\<close>

type_synonym eigs_fn = "matrix \<Rightarrow> int \<Rightarrow> py_error + (vec \<times> matrix)"

subsection \<open>Automatic scales (lines 64 to 72)\<close>

definition auto_scales :: "vec \<Rightarrow> int \<Rightarrow> py_error + vec" where
  "auto_scales vals num_scales =
     bind (np_min (filter (\<lambda>v. v > 0) vals)) (\<lambda>e2.
     bind (np_max vals) (\<lambda>eN.
       let min_scale = - ln 0.95 / sqrt (eN * e2);
           max_scale = - ln 0.85 / sqrt (eN * e2)
       in linspace min_scale max_scale num_scales))"

subsection \<open>The constructor (lines 20 to 84)\<close>

definition wavelet_cache :: "matrix \<Rightarrow> vec \<Rightarrow> vec \<Rightarrow> py_error + tensor3" where
  "wavelet_cache vecs vals scs =
     bind (map_result (\<lambda>s. dot vecs (np_diag (map (\<lambda>v. exp (- s * v)) vals))) scs) dstack"

definition init ::
  "eigs_fn \<Rightarrow> 'n graph_arg \<Rightarrow> scales_arg \<Rightarrow> int \<Rightarrow> int \<Rightarrow> py_error + 'n GraphWaveGenerator" where
  "init eigs G scales_in num_scales num_eigenvecs =
     (case G of
        OtherObject \<Rightarrow> Inl (TypeError ''G must be a StellarGraph object.'')
      | StellarGraphObject g \<Rightarrow>
          if length (node_types g) > 1
          then Inl (TypeError (''GraphWaveGenerator: node generator requires graph with single node type; ''
                               @ ''a graph with multiple node types is passed. Stopping.''))
          else
            bind (first_item (node_types g)) (\<lambda>t0.
              let nl = nodes_of_type g t0;
                  aadj = to_adjacency_matrix g (Some nl);
                  node_index = dict_zip nl [0..<length nl]
              in
              bind (laplacian_of (to_adjacency_matrix g None)) (\<lambda>laplacian.
                let k = (if num_eigenvecs = - 1 then int (length laplacian) - 2 else num_eigenvecs)
                in
                bind (eigs laplacian k) (\<lambda>(vals, vecs).
                  bind (case scales_in of
                          Auto \<Rightarrow> auto_scales vals num_scales
                        | Explicit ss \<Rightarrow> Inr ss) (\<lambda>scs.
                    bind (wavelet_cache vecs vals scs) (\<lambda>U.
                      Inr \<lparr>node_list = nl, Aadj = aadj, node_index_dict = node_index,
                           eigen_vals = vals, eigen_vecs = vecs, scales = scs, Ues = U\<rparr>))))))"

subsection \<open>The characteristic function (lines 132 to 161)\<close>

text \<open>
  \<open>samples\<close> has shape \<open>(ns, scales)\<close> and \<open>ts\<close> shape \<open>(nt)\<close>.  The broadcast product
  \<open>t_psi\<close> has shape \<open>(nt, ns, scales)\<close>; the mean over axis 1 of a tensor whose axis 1
  is not empty is, for every \<open>t\<close>, the vector of the column means.
\<close>

definition broadcast_mul :: "matrix \<Rightarrow> vec \<Rightarrow> tensor3" where
  "broadcast_mul samples ts = map (\<lambda>t. map (map (\<lambda>x. x * t)) samples) ts"

definition reduce_mean_axis1 :: "tensor3 \<Rightarrow> matrix" where
  "reduce_mean_axis1 T =
     map (\<lambda>M. case M of
                 [] \<Rightarrow> []
               | r # _ \<Rightarrow> map (\<lambda>s. sum_list (map (\<lambda>row. row ! s) M) / real (length M))
                              [0..<length r]) T"

definition empirical_characteristic_function :: "matrix \<Rightarrow> vec \<Rightarrow> vec" where
  "empirical_characteristic_function samples ts =
     (let t_psi = broadcast_mul samples ts;
          mean_cos_t_psi = reduce_mean_axis1 (map (map (map cos)) t_psi);
          mean_sin_t_psi = reduce_mean_axis1 (map (map (map sin)) t_psi)
      in concat (mean_cos_t_psi @ mean_sin_t_psi))"

subsection \<open>Datasets\<close>

text \<open>
  A \<^verbatim>\<open>tf.data.Dataset\<close> computes its elements when it is iterated, not when it is
  built.  A dataset that has not been batched is the list of its source slices, which
  \<^verbatim>\<open>from_tensor_slices\<close> takes from a tensor that exists when it is called, together
  with the stage that computes an element from a slice: \<^verbatim>\<open>map\<close> adds a function to the
  stage and checks \<^verbatim>\<open>num_parallel_calls\<close>, which must be an int64 that is positive or
  \<open>-1\<close> (autotune); \<^verbatim>\<open>zip\<close> stops with the shorter dataset; \<^verbatim>\<open>cache\<close> changes no
  element.  A source slice of the dataset of \<open>flow\<close> is a row, or a row with its target;
  an element is an embedding, or an embedding with its target.
\<close>

datatype 't slice = Row vec | RowTarget vec 't

datatype 't element = Embedding vec | WithTarget vec 't

fun embedding_of :: "'t element \<Rightarrow> vec" where
  "embedding_of (Embedding e) = e"
| "embedding_of (WithTarget e t) = e"

datatype ('s, 'a) unbatched = Unbatched (slices: "'s list") (stage: "'s \<Rightarrow> py_error + 'a")

definition from_tensor_slices :: "'s list \<Rightarrow> ('s, 's) unbatched" where
  "from_tensor_slices t = Unbatched t Inr"

definition in_int64 :: "int \<Rightarrow> bool" where
  "in_int64 n = (- (2 ^ 63) \<le> n \<and> n < 2 ^ 63)"

definition dataset_map ::
  "('a \<Rightarrow> py_error + 'b) \<Rightarrow> int \<Rightarrow> ('s, 'a) unbatched \<Rightarrow> py_error + ('s, 'b) unbatched" where
  "dataset_map f num_parallel_calls d =
     (if in_int64 num_parallel_calls
      then (if num_parallel_calls = - 1 \<or> 0 < num_parallel_calls
            then Inr (Unbatched (slices d) (\<lambda>s. bind (stage d s) f))
            else Inl (InvalidArgumentError ''num_parallel_calls must be greater than zero.''))
      else Inl (OverflowError ''Python int too large to convert to int64''))"

text \<open>
  The dataset without targets, and \<^verbatim>\<open>Dataset.zip\<close> of the dataset with the dataset of
  the targets.
\<close>

fun element_stage ::
  "(vec \<Rightarrow> py_error + vec) \<Rightarrow> ('t \<Rightarrow> py_error + 't) \<Rightarrow> 't slice \<Rightarrow> py_error + 't element" where
  "element_stage f g (Row x) = bind (f x) (\<lambda>e. Inr (Embedding e))"
| "element_stage f g (RowTarget x t) = bind (f x) (\<lambda>e. bind (g t) (\<lambda>t'. Inr (WithTarget e t')))"

definition untargeted :: "(vec, vec) unbatched \<Rightarrow> ('t slice, 't element) unbatched" where
  "untargeted d = Unbatched (map Row (slices d)) (element_stage (stage d) Inr)"

definition zip_datasets ::
  "(vec, vec) unbatched \<Rightarrow> ('t, 't) unbatched \<Rightarrow> ('t slice, 't element) unbatched" where
  "zip_datasets d td =
     Unbatched (map (\<lambda>(x, t). RowTarget x t) (zip (slices d) (slices td)))
               (element_stage (stage d) (stage td))"

definition cache :: "('s, 'a) unbatched \<Rightarrow> ('s, 'a) unbatched" where
  "cache d = d"

text \<open>
  \<^verbatim>\<open>batch\<close> groups the slices, the last batch being the shorter one; the batch size
  must be an int64 and positive.  A batched dataset is one pass of batches of slices, the
  stage, and the flag of \<^verbatim>\<open>repeat()\<close>.
\<close>

function chunks :: "nat \<Rightarrow> 'a list \<Rightarrow> 'a list list" where
  "chunks n xs = (if n = 0 \<or> xs = [] then [] else take n xs # chunks n (drop n xs))"
  by pat_completeness auto
termination
  by (relation "measure (\<lambda>(n, xs). length xs)") auto

declare chunks.simps [simp del]

datatype ('s, 'a) dataset =
  Dataset (one_pass: "'s list list") (transform: "'s \<Rightarrow> py_error + 'a") (forever: bool)

definition batch :: "int \<Rightarrow> ('s, 'a) unbatched \<Rightarrow> py_error + ('s, 'a) dataset" where
  "batch batch_size d =
     (if in_int64 batch_size
      then (if batch_size \<le> 0
            then Inl (InvalidArgumentError ''Batch size must be greater than zero.'')
            else Inr (Dataset (chunks (nat batch_size) (slices d)) (stage d) False))
      else Inl (OverflowError ''Python int too large to convert to int64''))"

definition repeat_dataset :: "('s, 'a) dataset \<Rightarrow> ('s, 'a) dataset" where
  "repeat_dataset d = Dataset (one_pass d) (transform d) True"

text \<open>
  Iteration: an iterator holds its dataset and the batches of slices that are left of the
  current pass.  \<open>get_next\<close> computes the elements of the next batch with the stage, and
  raises what the stage raises.  A repeating dataset starts a new pass when the pass is
  exhausted; when the new pass has no element either, the iteration ends.  (The cache
  keeps the elements of the first pass; the stage is a function, so the later passes
  yield the same elements.)
\<close>

datatype ('s, 'a) iterator = Iterator (source: "('s, 'a) dataset") (remaining: "'s list list")

definition make_iterator :: "('s, 'a) dataset \<Rightarrow> ('s, 'a) iterator" where
  "make_iterator ds = Iterator ds (one_pass ds)"

fun get_next :: "('s, 'a) iterator \<Rightarrow> py_error + ('a list \<times> ('s, 'a) iterator) option" where
  "get_next (Iterator ds (b # rest)) =
     bind (map_result (transform ds) b) (\<lambda>elements. Inr (Some (elements, Iterator ds rest)))"
| "get_next (Iterator ds []) =
     (if forever ds
      then (case one_pass ds of
              [] \<Rightarrow> Inr None
            | b # rest \<Rightarrow>
                bind (map_result (transform ds) b) (\<lambda>elements. Inr (Some (elements, Iterator ds rest))))
      else Inr None)"

text \<open>
  The batches that the first \<open>n\<close> calls of \<open>get_next\<close> yield: fewer when the iteration
  ends, and the exception when one of the calls raises.
\<close>

fun pull :: "nat \<Rightarrow> ('s, 'a) iterator \<Rightarrow> py_error + 'a list list" where
  "pull 0 it = Inr []"
| "pull (Suc n) it =
     (case get_next it of
        Inl e \<Rightarrow> Inl e
      | Inr None \<Rightarrow> Inr []
      | Inr (Some (b, it')) \<Rightarrow> bind (pull n it') (\<lambda>bs. Inr (b # bs)))"

subsection \<open>flow (lines 86 to 129)\<close>

text \<open>
  \<^verbatim>\<open>np.vectorize(node_index_dict.get, otypes=[np.int64])\<close>: \<open>dict.get\<close> gives
  \<open>None\<close> for a missing key, and the conversion of the results to int64 raises a
  TypeError on \<open>None\<close>.
\<close>

definition none_to_int64_error :: py_error where
  "none_to_int64_error =
     TypeError ''int() argument must be a string, a bytes-like object or a number, not NoneType''"

definition node_lookup :: "('n \<rightharpoonup> nat) \<Rightarrow> 'n list \<Rightarrow> py_error + nat list" where
  "node_lookup d node_ids =
     map_result (\<lambda>n. case d n of None \<Rightarrow> Inl none_to_int64_error | Some i \<Rightarrow> Inr i) node_ids"

text \<open>
  \<^verbatim>\<open>M[indices]\<close> with an integer array: the rows at the indices, an IndexError when one
  is out of bounds.
\<close>

definition take_rows :: "matrix \<Rightarrow> nat list \<Rightarrow> py_error + matrix" where
  "take_rows M idx =
     (if list_all (\<lambda>i. i < length M) idx then Inr (map (\<lambda>i. M ! i) idx)
      else Inl (IndexError ''index is out of bounds for axis 0''))"

text \<open>
  \<^verbatim>\<open>tf.einsum("ijk,j->ik", U, x)\<close>: entry \<open>(i, k)\<close> of the result is the sum over
  \<open>j\<close> of \<open>U[i][j][k] * x[j]\<close>; the size of axis 1 of \<open>U\<close> must be the length of \<open>x\<close>.
\<close>

definition einsum_shape_error :: py_error where
  "einsum_shape_error = InvalidArgumentError ''Expected dimension of axis j to match''"

definition einsum_ijk_j_ik :: "tensor3 \<Rightarrow> vec \<Rightarrow> py_error + matrix" where
  "einsum_ijk_j_ik U x =
     (if list_all (\<lambda>M. length M = length x) U
      then Inr (map (\<lambda>M. map (\<lambda>k. sum_list (map (\<lambda>j. M ! j ! k * x ! j) [0..<length x]))
                              [0..<ncols M]) U)
      else Inl einsum_shape_error)"

text \<open>
  \<open>flow\<close> looks the node ids up and gathers their rows of the eigenvector matrix when it
  is called: the rows are the argument of \<^verbatim>\<open>from_tensor_slices\<close> (line 107).  The two
  \<^verbatim>\<open>map\<close> stages, the einsum and the characteristic function, are computed when the
  dataset is iterated.
\<close>

definition flow ::
  "'n GraphWaveGenerator \<Rightarrow> 'n list \<Rightarrow> vec \<Rightarrow> int \<Rightarrow> 't list option \<Rightarrow> bool \<Rightarrow> int
     \<Rightarrow> py_error + ('t slice, 't element) dataset" where
  "flow gen node_ids sample_points batch_size targets repeat threads =
     (let ts = sample_points in
      bind (node_lookup (node_index_dict gen) node_ids) (\<lambda>idx.
      bind (take_rows (eigen_vecs gen) idx) (\<lambda>rows.
      bind (dataset_map (\<lambda>x. einsum_ijk_j_ik (Ues gen) x) threads (from_tensor_slices rows))
        (\<lambda>dataset.
      bind (dataset_map (\<lambda>x. Inr (empirical_characteristic_function x ts)) threads dataset)
        (\<lambda>dataset.
        let dataset = (case targets of
                         None \<Rightarrow> untargeted dataset
                       | Some tg \<Rightarrow> zip_datasets dataset (from_tensor_slices tg))
        in
        bind (batch batch_size (cache dataset)) (\<lambda>batched.
          if repeat then Inr (repeat_dataset batched) else Inr batched))))))"

text \<open>
  The tensors of wavelet coefficients that the first \<^verbatim>\<open>map\<close> stage of the dataset of
  lines 105 to 112 yields for the node ids, one for each node id.
\<close>

definition wavelet_samples :: "'n GraphWaveGenerator \<Rightarrow> 'n list \<Rightarrow> py_error + matrix list" where
  "wavelet_samples gen node_ids =
     bind (node_lookup (node_index_dict gen) node_ids) (\<lambda>idx.
     bind (take_rows (eigen_vecs gen) idx) (\<lambda>rows.
       map_result (\<lambda>x. einsum_ijk_j_ik (Ues gen) x) rows))"

subsection \<open>A small graph\<close>

text \<open>
  The path graph on the nodes 10, 20 and 30, of one node type.  Its Laplacian has the
  eigenvalues 0, 1 and 3; \<open>path_eigs\<close> stands for an eigensolver that returns the
  largest one, with the eigenvector \<open>(1, -2, 1)\<close>, when it is asked for one
  eigenpair of that Laplacian, and fails otherwise.  \<open>flat_eigs\<close> stands for one that
  returns the eigenvalue 0.
\<close>

definition path_graph :: "nat StellarGraph" where
  "path_graph =
     \<lparr>node_types = [''default''],
      nodes_of_type = (\<lambda>t. [10, 20, 30]),
      to_adjacency_matrix = (\<lambda>nodes. [[0, 1, 0], [1, 0, 1], [0, 1, 0]])\<rparr>"

definition path_eigs :: eigs_fn where
  "path_eigs L k =
     (if L = [[1, - 1, 0], [- 1, 2, - 1], [0, - 1, 1]] \<and> k = 1
      then Inr ([3], [[1], [- 2], [1]])
      else Inl (ArpackError ''no convergence''))"

definition flat_eigs :: eigs_fn where
  "flat_eigs L k = Inr ([0], [[1], [1], [1]])"

definition path_generator :: "vec \<Rightarrow> nat GraphWaveGenerator" where
  "path_generator scs =
     \<lparr>node_list = [10, 20, 30],
      Aadj = [[0, 1, 0], [1, 0, 1], [0, 1, 0]],
      node_index_dict = dict_zip [10, 20, 30] [0..<3],
      eigen_vals = [3],
      eigen_vecs = [[1], [- 2], [1]],
      scales = scs,
      Ues = map (\<lambda>v. [map (\<lambda>s. v * exp (- s * 3)) scs]) [1, - 2, 1]\<rparr>"


text \<open>
  A symmetric matrix of binary64 weights for which the degree of the first node is rounded:
  \<open>1 + 2\<^sup>-\<^sup>5\<^sup>3\<close> lies halfway between \<open>1\<close> and the next binary64 number.
\<close>

definition half_ulp :: real where
  "half_ulp = 1 / 2 ^ 53"


text \<open>
  The wavelet coefficients of the nodes 10 and 20 for the scales 1 and 2.
\<close>

definition path_samples_10 :: matrix where
  "path_samples_10 =
     [[exp (- 3), exp (- 6)], [- 2 * exp (- 3), - 2 * exp (- 6)], [exp (- 3), exp (- 6)]]"

definition path_samples_20 :: matrix where
  "path_samples_20 =
     [[- 2 * exp (- 3), - 2 * exp (- 6)], [4 * exp (- 3), 4 * exp (- 6)],
      [- 2 * exp (- 3), - 2 * exp (- 6)]]"

subsection \<open>Notions used in the statements\<close>

text \<open>
  The number of eigenpairs the constructor asks for (lines 57 and 58) and the scales it
  uses (lines 64 to 74).
\<close>

definition chosen_scales :: "scales_arg \<Rightarrow> vec \<Rightarrow> int \<Rightarrow> py_error + vec" where
  "chosen_scales sc vals ns = (case sc of Auto \<Rightarrow> auto_scales vals ns | Explicit ss \<Rightarrow> Inr ss)"

definition requested_k :: "int \<Rightarrow> matrix \<Rightarrow> int" where
  "requested_k ne L = (if ne = - 1 then int (length L) - 2 else ne)"

text \<open>
  The specification's automatic scale range: \<open>e2\<close> is the smallest strictly positive
  eigenvalue and \<open>eN\<close> the largest eigenvalue.
\<close>

definition smallest_positive :: "vec \<Rightarrow> real" where
  "smallest_positive vals = Min (set (filter (\<lambda>v. 0 < v) vals))"

definition largest :: "vec \<Rightarrow> real" where
  "largest vals = Max (set vals)"

definition min_scale_of :: "vec \<Rightarrow> real" where
  "min_scale_of vals = - ln 0.95 / sqrt (largest vals * smallest_positive vals)"

definition max_scale_of :: "vec \<Rightarrow> real" where
  "max_scale_of vals = - ln 0.85 / sqrt (largest vals * smallest_positive vals)"

text \<open>
  The specification's cache: entry \<open>(i, j, s)\<close> is entry \<open>(i, j)\<close> of
  \<open>U diag(exp(- scale\<^sub>s * eigenvalues))\<close>, that is \<open>U[i][j] * exp(- scale\<^sub>s * eigenvalue\<^sub>j)\<close>.
  \<open>scaled_columns A d\<close> is \<open>A diag(d)\<close>.
\<close>

definition scaled_columns :: "matrix \<Rightarrow> vec \<Rightarrow> matrix" where
  "scaled_columns A d = map (\<lambda>r. map (\<lambda>j. r ! j * d ! j) [0..<length d]) A"

definition cache_entries :: "matrix \<Rightarrow> vec \<Rightarrow> vec \<Rightarrow> tensor3" where
  "cache_entries vecs vals scs =
     map (\<lambda>r. map (\<lambda>j. map (\<lambda>s. r ! j * exp (- s * vals ! j)) scs) [0..<length vals]) vecs"

text \<open>
  The specification's mean responses of one node: for every sample point \<open>t\<close> and every
  scale \<open>s\<close>, the mean over the samples \<open>x\<close> of that scale of \<open>f (x * t)\<close>, laid out
  sample point by sample point; \<open>f\<close> is the cosine or the sine.
\<close>

definition mean_response :: "(real \<Rightarrow> real) \<Rightarrow> matrix \<Rightarrow> vec \<Rightarrow> vec" where
  "mean_response f samples ts =
     concat (map (\<lambda>t. map (\<lambda>s. sum_list (map (\<lambda>row. f (row ! s * t)) samples) / real (length samples))
                           [0..<ncols samples]) ts)"

text \<open>
  What the dataset of \<open>flow\<close> holds: the slices, made of the gathered rows and of the
  targets, and the stage, which computes the embedding of a row from the cache \<open>U\<close> and
  leaves a target as it is.  \<open>valid_flow_arguments\<close> is what \<^verbatim>\<open>map\<close> and \<^verbatim>\<open>batch\<close> require of
  \<open>threads\<close> and \<open>batch_size\<close>.
\<close>

definition flow_slices :: "matrix \<Rightarrow> 't list option \<Rightarrow> 't slice list" where
  "flow_slices rows targets =
     (case targets of
        None \<Rightarrow> map Row rows
      | Some tg \<Rightarrow> map (\<lambda>(x, t). RowTarget x t) (zip rows tg))"

definition node_stage :: "tensor3 \<Rightarrow> vec \<Rightarrow> vec \<Rightarrow> py_error + vec" where
  "node_stage U ts x =
     bind (einsum_ijk_j_ik U x) (\<lambda>samples. Inr (empirical_characteristic_function samples ts))"

text \<open>
  The elements that the stage computes for these slices, given the wavelet coefficients
  of the rows: the embeddings, with the targets when there are targets.
\<close>

definition flow_elements :: "matrix list \<Rightarrow> vec \<Rightarrow> 't list option \<Rightarrow> 't element list" where
  "flow_elements samples ts targets =
     (case targets of
        None \<Rightarrow> map (\<lambda>X. Embedding (empirical_characteristic_function X ts)) samples
      | Some tg \<Rightarrow> map (\<lambda>(X, t). WithTarget (empirical_characteristic_function X ts) t)
                       (zip samples tg))"

definition valid_flow_arguments :: "int \<Rightarrow> int \<Rightarrow> bool" where
  "valid_flow_arguments batch_size threads =
     (in_int64 threads \<and> (threads = - 1 \<or> 0 < threads) \<and> in_int64 batch_size \<and> 0 < batch_size)"

text \<open>
  The batches of slices that \<open>n\<close> steps of an iterator go through, given one pass, the
  flag of \<^verbatim>\<open>repeat()\<close> and what is left of the current pass.
\<close>

fun pull_slices :: "nat \<Rightarrow> 's list list \<Rightarrow> bool \<Rightarrow> 's list list \<Rightarrow> 's list list" where
  "pull_slices 0 pass rep rem = []"
| "pull_slices (Suc n) pass rep (b # rest) = b # pull_slices n pass rep rest"
| "pull_slices (Suc n) pass rep [] =
     (if rep then (case pass of [] \<Rightarrow> [] | b # rest \<Rightarrow> b # pull_slices n pass rep rest) else [])"

text \<open>
  A tensor of shape \<open>(n, m)\<close>.
\<close>

definition has_shape :: "matrix \<Rightarrow> nat \<Rightarrow> nat \<Rightarrow> bool" where
  "has_shape X n m = (length X = n \<and> list_all (\<lambda>r. length r = m) X)"

text \<open>
  The stage of the datasets that \<open>flow\<close> returns for the generator of the path graph
  with the scales 1 and 2, at the sample points 0 and 1.
\<close>

definition path_stage :: "nat slice \<Rightarrow> py_error + nat element" where
  "path_stage = element_stage (node_stage (Ues (path_generator [1, 2])) [0, 1]) Inr"

section \<open>Properties\<close>

subsection \<open>Results\<close>

lemma bind_simps [simp]: "bind (Inl e) f = Inl e" "bind (Inr v) f = f v"
  by (simp_all add: bind_def)

lemma bind_eq_Inr: "bind m f = Inr y \<longleftrightarrow> (\<exists>x. m = Inr x \<and> f x = Inr y)"
  by (cases m) simp_all

lemma bind_eq_Inl: "bind m f = Inl e \<longleftrightarrow> m = Inl e \<or> (\<exists>x. m = Inr x \<and> f x = Inl e)"
  by (cases m) simp_all

subsection \<open>Binary64 rounding\<close>

lemma round_half_even_of_int [simp]: "round_half_even (of_int k) = k"
  by (simp add: round_half_even_def)

lemma round64_0 [simp]: "round64 0 = 0"
  by (simp add: round64_def)

lemma ulp_minus [simp]: "ulp (- x) = ulp x"
  by (simp add: ulp_def)

lemma round64_minus: "round64 (- x) = - round64 x"
  by (simp add: round64_def sgn_minus)

lemma floor_log2_eq:
  assumes "0 < x" "2 powr (of_int e) \<le> x" "x < 2 powr (of_int (e + 1))"
  shows "\<lfloor>log 2 x\<rfloor> = e"
proof -
  have "of_int e \<le> log 2 x" using assms by (simp add: le_log_iff)
  moreover have "log 2 x < of_int e + 1" using assms by (simp add: log_less_iff)
  ultimately show ?thesis by (simp add: floor_eq_iff)
qed

lemma two_powr_of_int: "0 \<le> k \<Longrightarrow> (2::real) powr (of_int k) = 2 ^ nat k"
proof -
  assume "0 \<le> k"
  then have "(of_int k :: real) = real (nat k)" by simp
  then show ?thesis by (simp only: powr_realpow [of 2, OF zero_less_numeral])
qed

lemma round64_exact:
  assumes n: "n \<noteq> 0" "\<bar>n\<bar> < 2 ^ 53"
  shows "round64 (of_int n * 2 powr (of_int p)) = of_int n * 2 powr (of_int p)"
proof -
  let ?x = "of_int n * 2 powr (of_int p) :: real"
  define m where "m = nat \<bar>n\<bar>"
  have m: "0 < m" "m < 2 ^ 53" "real m = \<bar>of_int n\<bar>"
    using n by (simp_all add: m_def nat_less_iff)
  define e where "e = \<lfloor>log 2 (real m)\<rfloor>"
  have e0: "0 \<le> e" using m(1) by (simp add: e_def)
  have "log 2 (real m) < 53"
  proof -
    have "real m < 2 powr 53" using m(2)
      by (metis of_nat_less_iff of_nat_numeral of_nat_power powr_realpow numeral_One
          zero_less_numeral of_nat_numeral)
    then show ?thesis using m(1) by (simp add: log_less_iff)
  qed
  then have e52: "e \<le> 52" by (simp add: e_def floor_le_iff) 
  have el: "2 powr (of_int e) \<le> real m" "real m < 2 powr (of_int (e + 1))"
  proof -
    have "of_int e \<le> log 2 (real m)" by (simp add: e_def)
    then show "2 powr (of_int e) \<le> real m" using m(1) by (simp add: le_log_iff)
    have "log 2 (real m) < of_int (e + 1)" by (simp add: e_def)
    then show "real m < 2 powr (of_int (e + 1))" using m(1) by (simp add: log_less_iff)
  qed
  have ax: "\<bar>?x\<bar> = real m * 2 powr (of_int p)" by (simp add: abs_mult m(3))
  have fl: "\<lfloor>log 2 \<bar>?x\<bar>\<rfloor> = e + p"
  proof (rule floor_log2_eq)
    show "0 < \<bar>?x\<bar>" using n(1) by simp
    show "2 powr of_int (e + p) \<le> \<bar>?x\<bar>"
      unfolding ax using el(1) by (simp add: powr_add)
    show "\<bar>?x\<bar> < 2 powr of_int (e + p + 1)"
      unfolding ax using el(2) by (simp add: powr_add algebra_simps)
  qed
  have u: "ulp ?x = 2 powr (of_int p) / 2 ^ nat (52 - e)"
  proof -
    have "ulp ?x = 2 powr (of_int p - of_int (52 - e))"
      by (simp add: ulp_def fl algebra_simps)
    also have "\<dots> = 2 powr (of_int p) / 2 powr (of_int (52 - e))"
      by (simp only: powr_diff)
    also have "2 powr (of_int (52 - e)) = (2::real) ^ nat (52 - e)"
      using e52 by (intro two_powr_of_int) simp
    finally show ?thesis .
  qed
  have q: "\<bar>?x\<bar> / ulp ?x = of_int (int m * 2 ^ nat (52 - e))"
    unfolding ax u by simp
  have r: "round_half_even (\<bar>?x\<bar> / ulp ?x) = int m * 2 ^ nat (52 - e)"
    unfolding q by (rule round_half_even_of_int)
  have nz: "?x \<noteq> 0" using n(1) by simp
  have "round64 ?x = sgn ?x * (of_int (int m * 2 ^ nat (52 - e)) * ulp ?x)"
    unfolding round64_def r using nz by (simp only: if_False)
  also have "of_int (int m * 2 ^ nat (52 - e)) * ulp ?x = \<bar>?x\<bar>"
    unfolding ax u by simp
  also have "sgn ?x * \<bar>?x\<bar> = ?x" by (simp add: sgn_mult_abs)
  finally show ?thesis .
qed

lemma round64_of_int: "\<bar>n\<bar> < 2 ^ 53 \<Longrightarrow> round64 (of_int n) = of_int n"
  using round64_exact [of n 0] by (cases "n = 0") simp_all


lemma two_powr_neg: "(2::real) powr (- real k) = 1 / 2 ^ k"
  by (simp add: powr_minus powr_realpow inverse_eq_divide)

lemma round_half_even_tie: "even k \<Longrightarrow> round_half_even (of_int k + 1 / 2) = k"
proof -
  assume k: "even k"
  have f: "\<lfloor>of_int k + 1 / 2 :: real\<rfloor> = k" by (simp add: floor_eq_iff)
  show ?thesis unfolding round_half_even_def f Let_def using k by simp
qed

lemma round64_tie: "round64 (1 + 1 / 2 ^ 53) = 1"
proof -
  let ?x = "1 + 1 / 2 ^ 53 :: real"
  have fl: "\<lfloor>log 2 \<bar>?x\<bar>\<rfloor> = 0"
    by (rule floor_log2_eq) simp_all
  have "ulp ?x = 2 powr (- real 52)"
    unfolding ulp_def fl by simp
  then have u: "ulp ?x = 1 / 2 ^ 52" by (simp only: two_powr_neg)
  have q: "\<bar>?x\<bar> / ulp ?x = of_int (2 ^ 52) + 1 / 2"
    unfolding u by simp
  have ev: "even (2 ^ 52 :: int)" by simp
  have r: "round_half_even (\<bar>?x\<bar> / ulp ?x) = 2 ^ 52"
    using round_half_even_tie [OF ev] by (simp only: q)
  have "round64 ?x = sgn ?x * (of_int (2 ^ 52) * (1 / 2 ^ 52))"
    by (subst round64_def, subst r, subst u) simp
  also have "\<dots> = 1" by simp
  finally show ?thesis .
qed

lemma round64_small: "round64 (1 / 2 ^ 53) = 1 / 2 ^ 53"
proof -
  have "(of_int (- 53) :: real) = - real 53" by simp
  then have e: "(2::real) powr (of_int (- 53)) = 1 / 2 ^ 53"
    by (simp only: two_powr_neg)
  have "round64 (of_int 1 * 2 powr (of_int (- 53))) = of_int 1 * 2 powr (of_int (- 53))"
    by (rule round64_exact) simp_all
  then show ?thesis unfolding e by (simp only: of_int_1 mult_1)
qed

lemma round64_1 [simp]: "round64 1 = 1"
  using round64_of_int [of 1] by simp

lemma round64_2 [simp]: "round64 2 = 2"
  using round64_of_int [of 2] by simp

lemma round64_minus_1 [simp]: "round64 (- 1) = - 1"
  using round64_of_int [of "- 1"] by simp

subsection \<open>Library calls\<close>

lemma map_result_Inr:
  "map_result f xs = Inr ys \<longleftrightarrow> list_all2 (\<lambda>x y. f x = Inr y) xs ys"
proof (induction xs arbitrary: ys)
  case Nil
  then show ?case by auto
next
  case (Cons x xs)
  show ?case
  proof (cases "f x")
    case (Inl e)
    then show ?thesis by (auto simp: list_all2_Cons1)
  next
    case (Inr y)
    then show ?thesis
      using Cons.IH by (cases "map_result f xs") (auto simp: list_all2_Cons1)
  qed
qed

lemma map_result_total:
  assumes "\<And>x. x \<in> set xs \<Longrightarrow> f x = Inr (g x)"
  shows "map_result f xs = Inr (map g xs)"
  using assms
proof (induction xs)
  case Nil
  then show ?case by simp
next
  case (Cons a xs)
  have "f a = Inr (g a)" using Cons.prems by simp
  moreover have "map_result f xs = Inr (map g xs)" using Cons by simp
  ultimately show ?case by simp
qed

lemma map_result_fails:
  "x \<in> set xs \<Longrightarrow> f x = Inl e \<Longrightarrow> \<exists>e'. map_result f xs = Inl e'"
proof (induction xs)
  case Nil
  then show ?case by simp
next
  case (Cons a xs)
  show ?case
  proof (cases "f a")
    case (Inl e')
    then show ?thesis by simp
  next
    case (Inr y)
    then have "x \<in> set xs" using Cons.prems by auto
    then obtain e' where "map_result f xs = Inl e'" using Cons.IH Cons.prems(2) by blast
    then show ?thesis using Inr by simp
  qed
qed

lemma map_result_Inl:
  "map_result f xs = Inl e \<Longrightarrow> \<exists>x. x \<in> set xs \<and> f x = Inl e"
proof (induction xs)
  case Nil
  then show ?case by simp
next
  case (Cons a xs)
  show ?case
  proof (cases "f a")
    case (Inl e')
    then show ?thesis using Cons.prems by auto
  next
    case (Inr y)
    then have "map_result f xs = Inl e"
      using Cons.prems by (cases "map_result f xs") simp_all
    then show ?thesis using Cons.IH by auto
  qed
qed

lemma map_nth_rows: "map (\<lambda>i. f (xs ! i)) [0..<length xs] = map f xs"
  by (rule nth_equalityI) simp_all

lemma length_np_diag [simp]: "length (np_diag d) = length d"
  by (simp add: np_diag_def)

lemma ncols_np_diag [simp]: "ncols (np_diag d) = length d"
  by (cases d) (simp_all add: np_diag_def ncols_def upt_conv_Cons del: upt_Suc)

lemma np_diag_nth: "l < length d \<Longrightarrow> j < length d \<Longrightarrow> np_diag d ! l ! j = (if l = j then d ! l else 0)"
  by (simp add: np_diag_def)

lemma sum_list_pick:
  assumes "j < n"
  shows "sum_list (map (\<lambda>l. (r l :: real) * (if l = j then c l else 0)) [0..<n]) = r j * c j"
proof -
  have "sum_list (map (\<lambda>l. r l * (if l = j then c l else 0)) [0..<n])
        = (\<Sum>l\<in>{0..<n}. if l = j then r l * c l else 0)"
    unfolding interv_sum_list_conv_sum_set_nat by (intro sum.cong) simp_all
  also have "\<dots> = r j * c j" using assms by simp
  finally show ?thesis .
qed

lemma dot_np_diag:
  assumes "list_all (\<lambda>r. length r = length d) A"
  shows "dot A (np_diag d) = Inr (scaled_columns A d)"
proof -
  have "sum_list (map (\<lambda>l. r ! l * np_diag d ! l ! j) [0..<length d]) = r ! j * d ! j"
    if "j < length d" for r j
  proof -
    have "map (\<lambda>l. r ! l * np_diag d ! l ! j) [0..<length d]
          = map (\<lambda>l. r ! l * (if l = j then d ! l else 0)) [0..<length d]"
      using that by (intro map_cong refl) (simp add: np_diag_nth)
    then show ?thesis using that by (simp only: sum_list_pick)
  qed
  then have "map (\<lambda>r. map (\<lambda>j. sum_list (map (\<lambda>l. r ! l * np_diag d ! l ! j) [0..<length d]))
                          [0..<length d]) A = scaled_columns A d"
    unfolding scaled_columns_def by (intro map_cong refl) simp
  then show ?thesis using assms by (simp add: dot_def)
qed

lemma dot_Inr_shape: "dot A B = Inr C \<Longrightarrow> list_all (\<lambda>r. length r = length B) A"
  by (auto simp: dot_def split: if_splits)

lemma dstack_same_shape:
  assumes "ms \<noteq> []" and sh: "\<And>m. m \<in> set ms \<Longrightarrow> length m = N \<and> (\<forall>i<N. length (m ! i) = k)"
  shows "dstack ms = Inr (map (\<lambda>i. map (\<lambda>j. map (\<lambda>m. m ! i ! j) ms) [0..<k]) [0..<N])"
proof -
  obtain m0 rest where ms: "ms = m0 # rest" using assms(1) by (cases ms) auto
  have m0: "length m0 = N" "\<And>i. i < N \<Longrightarrow> length (m0 ! i) = k"
    using sh [of m0] by (simp_all add: ms)
  have "same_shape m m0" if "m \<in> set ms" for m
    using sh [OF that] m0 by (simp add: same_shape_def list_all2_conv_all_nth)
  then have all: "list_all (\<lambda>m. same_shape m m0) ms" by (simp add: list_all_iff)
  have eq: "map (\<lambda>i. map (\<lambda>j. map (\<lambda>m. m ! i ! j) ms) [0..<length (m0 ! i)]) [0..<length m0]
        = map (\<lambda>i. map (\<lambda>j. map (\<lambda>m. m ! i ! j) ms) [0..<k]) [0..<N]"
    unfolding m0(1) by (intro map_cong refl) (simp add: m0(2))
  have "dstack ms = (if list_all (\<lambda>m. same_shape m m0) ms
           then Inr (map (\<lambda>i. map (\<lambda>j. map (\<lambda>m. m ! i ! j) ms) [0..<length (m0 ! i)]) [0..<length m0])
           else Inl (ValueError ''all the input array dimensions must match exactly''))"
    unfolding dstack_def ms by simp
  then show ?thesis using all eq by simp
qed

lemma dstack_scaled:
  assumes "scs \<noteq> []"
  shows "dstack (map (\<lambda>s. scaled_columns vecs (map (\<lambda>v. exp (- s * v)) vals)) scs)
         = Inr (cache_entries vecs vals scs)"
proof -
  let ?ms = "map (\<lambda>s. scaled_columns vecs (map (\<lambda>v. exp (- s * v)) vals)) scs"
  have "dstack ?ms = Inr (map (\<lambda>i. map (\<lambda>j. map (\<lambda>m. m ! i ! j) ?ms) [0..<length vals])
                               [0..<length vecs])"
  proof (rule dstack_same_shape)
    show "?ms \<noteq> []" using assms by simp
  next
    fix m assume "m \<in> set ?ms"
    then show "length m = length vecs \<and> (\<forall>i<length vecs. length (m ! i) = length vals)"
      by (auto simp: scaled_columns_def)
  qed
  also have "map (\<lambda>i. map (\<lambda>j. map (\<lambda>m. m ! i ! j) ?ms) [0..<length vals]) [0..<length vecs]
             = cache_entries vecs vals scs"
    by (rule nth_equalityI) (simp_all add: cache_entries_def scaled_columns_def)
  finally show ?thesis .
qed

lemma wavelet_cache_rect:
  assumes "scs \<noteq> []" "list_all (\<lambda>r. length r = length vals) vecs"
  shows "wavelet_cache vecs vals scs = Inr (cache_entries vecs vals scs)"
proof -
  have "map_result (\<lambda>s. dot vecs (np_diag (map (\<lambda>v. exp (- s * v)) vals))) scs
        = Inr (map (\<lambda>s. scaled_columns vecs (map (\<lambda>v. exp (- s * v)) vals)) scs)"
  proof (rule map_result_total)
    fix s
    have "list_all (\<lambda>r. length r = length (map (\<lambda>v. exp (- s * v)) vals)) vecs"
      using assms(2) by simp
    then show "dot vecs (np_diag (map (\<lambda>v. exp (- s * v)) vals))
               = Inr (scaled_columns vecs (map (\<lambda>v. exp (- s * v)) vals))"
      by (rule dot_np_diag)
  qed
  then show ?thesis
    unfolding wavelet_cache_def using dstack_scaled [OF assms(1), of vecs vals]
    by (simp only: bind_simps)
qed

lemma wavelet_cache_Inr:
  "wavelet_cache vecs vals scs = Inr U \<longleftrightarrow>
     scs \<noteq> [] \<and> list_all (\<lambda>r. length r = length vals) vecs \<and> U = cache_entries vecs vals scs"
proof (cases "scs = []")
  case True
  then show ?thesis by (simp add: wavelet_cache_def dstack_def)
next
  case nonempty: False
  show ?thesis
  proof (cases "list_all (\<lambda>r. length r = length vals) vecs")
    case True
    then show ?thesis using nonempty wavelet_cache_rect [OF nonempty True] by auto
  next
    case False
    obtain s0 rest where scs: "scs = s0 # rest" using nonempty by (cases scs) auto
    have "dot vecs (np_diag (map (\<lambda>v. exp (- s0 * v)) vals)) = Inl (ValueError ''shapes not aligned'')"
      using False by (simp add: dot_def)
    then have "wavelet_cache vecs vals scs = Inl (ValueError ''shapes not aligned'')"
      unfolding wavelet_cache_def scs by (simp only: map_result.simps sum.case bind_simps)
    then show ?thesis using False by simp
  qed
qed

subsection \<open>Scales and the constructor\<close>

lemma linspace_negative: "num < 0 \<Longrightarrow> linspace a b num = Inl (ValueError ''Number of samples must be non-negative.'')"
  by (simp add: linspace_def)

lemma linspace_one: "linspace a b 1 = Inr [a]"
  by (simp add: linspace_def)

lemma linspace_zero: "linspace a b 0 = Inr []"
  by (simp add: linspace_def)

lemma linspace_many:
  assumes "2 \<le> num"
  shows "linspace a b num =
         Inr (map (\<lambda>i. a + real i * ((b - a) / real_of_int (num - 1))) [0..<nat num])"
proof -
  let ?n = "nat num"
  let ?y = "map (\<lambda>i. i * ((b - a) / real_of_int (num - 1)) + a) (map real [0..<?n])"
  have n: "2 \<le> ?n" using assms by simp
  have r: "real (?n - 1) = real_of_int (num - 1)" using assms by (simp add: of_nat_diff)
  have "?y[?n - 1 := b] = map (\<lambda>i. a + real i * ((b - a) / real_of_int (num - 1))) [0..<?n]"
  proof (rule nth_equalityI)
    show "length (?y[?n - 1 := b]) = length (map (\<lambda>i. a + real i * ((b - a) / real_of_int (num - 1))) [0..<?n])"
      by simp
  next
    fix i assume "i < length (?y[?n - 1 := b])"
    then have i: "i < ?n" by simp
    show "?y[?n - 1 := b] ! i = map (\<lambda>i. a + real i * ((b - a) / real_of_int (num - 1))) [0..<?n] ! i"
    proof (cases "i = ?n - 1")
      case True
      have "real_of_int (num - 1) \<noteq> 0" using assms by simp
      then have "a + real (?n - 1) * ((b - a) / real_of_int (num - 1)) = b"
        unfolding r by simp
      then show ?thesis using i True by simp
    next
      case False
      then show ?thesis using i by (simp add: add.commute)
    qed
  qed
  then show ?thesis using assms by (simp add: linspace_def Let_def)
qed

lemma linspace_length: "linspace a b num = Inr ys \<Longrightarrow> int (length ys) = num"
  by (auto simp: linspace_def Let_def split: if_splits)

lemma fold_min_Min: "fold min xs (x::real) = Min (set (x # xs))"
  by (rule Min.set_eq_fold [symmetric])

lemma fold_max_Max: "fold max xs (x::real) = Max (set (x # xs))"
  by (rule Max.set_eq_fold [symmetric])

lemma np_min_Inr: "np_min a = Inr m \<longleftrightarrow> a \<noteq> [] \<and> m = Min (set a)"
  by (cases a) (auto simp: np_min_def fold_min_Min)

lemma np_max_Inr: "np_max a = Inr m \<longleftrightarrow> a \<noteq> [] \<and> m = Max (set a)"
  by (cases a) (auto simp: np_max_def fold_max_Max)

lemma auto_scales_no_positive:
  "list_all (\<lambda>v. v \<le> 0) vals \<Longrightarrow>
   auto_scales vals n = Inl (ValueError ''zero-size array to reduction operation minimum which has no identity'')"
proof -
  assume "list_all (\<lambda>v. v \<le> 0) vals"
  then have "filter (\<lambda>v. v > 0) vals = []"
    by (auto simp: list_all_iff filter_empty_conv not_less)
  then show ?thesis by (simp add: auto_scales_def np_min_def)
qed

lemma init_single_type:
  assumes "node_types g = [t0]"
  shows "init eigs (StellarGraphObject g) sc ns ne =
         bind (laplacian_of (to_adjacency_matrix g None)) (\<lambda>L.
         bind (eigs L (requested_k ne L)) (\<lambda>(vals, vecs).
         bind (chosen_scales sc vals ns) (\<lambda>scs.
         bind (wavelet_cache vecs vals scs) (\<lambda>U.
           Inr \<lparr>node_list = nodes_of_type g t0,
                Aadj = to_adjacency_matrix g (Some (nodes_of_type g t0)),
                node_index_dict = dict_zip (nodes_of_type g t0) [0..<length (nodes_of_type g t0)],
                eigen_vals = vals, eigen_vecs = vecs, scales = scs, Ues = U\<rparr>))))"
  using assms by (simp add: init_def first_item_def Let_def chosen_scales_def requested_k_def)

lemma init_Inr:
  assumes "init eigs G sc ns ne = Inr gen"
  shows "\<exists>g t0 L.
           G = StellarGraphObject g \<and> node_types g = [t0]
           \<and> laplacian_of (to_adjacency_matrix g None) = Inr L
           \<and> eigs L (requested_k ne L) = Inr (eigen_vals gen, eigen_vecs gen)
           \<and> chosen_scales sc (eigen_vals gen) ns = Inr (scales gen)
           \<and> wavelet_cache (eigen_vecs gen) (eigen_vals gen) (scales gen) = Inr (Ues gen)
           \<and> node_list gen = nodes_of_type g t0
           \<and> Aadj gen = to_adjacency_matrix g (Some (nodes_of_type g t0))
           \<and> node_index_dict gen = dict_zip (node_list gen) [0..<length (node_list gen)]"
proof (cases G)
  case OtherObject
  then show ?thesis using assms by (simp add: init_def)
next
  case (StellarGraphObject g)
  show ?thesis
  proof (cases "node_types g")
    case Nil
    then show ?thesis using assms StellarGraphObject by (simp add: init_def first_item_def)
  next
    case (Cons t0 rest)
    have rest: "rest = []"
    proof (rule ccontr)
      assume "rest \<noteq> []"
      then have "length (node_types g) > 1" using Cons by (cases rest) simp_all
      then show False using assms StellarGraphObject by (simp add: init_def)
    qed
    have nt: "node_types g = [t0]" using Cons rest by simp
    show ?thesis
      using assms unfolding StellarGraphObject init_single_type [OF nt]
      by (auto simp: bind_eq_Inr nt)
  qed
qed

lemma hd_map_upt: "0 < n \<Longrightarrow> hd (map f [0..<n]) = f 0"
  by (simp add: hd_conv_nth)

lemma last_map_upt: "0 < n \<Longrightarrow> last (map f [0..<n]) = f (n - 1)"
  by (simp add: last_conv_nth)

lemma auto_scales_Inr:
  assumes "auto_scales vals n = Inr scs"
  shows "filter (\<lambda>v. 0 < v) vals \<noteq> [] \<and> linspace (min_scale_of vals) (max_scale_of vals) n = Inr scs"
proof -
  from assms obtain e2 eN where e2: "np_min (filter (\<lambda>v. 0 < v) vals) = Inr e2"
    and eN: "np_max vals = Inr eN"
    and ls: "linspace (- ln 0.95 / sqrt (eN * e2)) (- ln 0.85 / sqrt (eN * e2)) n = Inr scs"
    by (auto simp: auto_scales_def bind_eq_Inr Let_def)
  have "e2 = smallest_positive vals" "eN = largest vals" "filter (\<lambda>v. 0 < v) vals \<noteq> []"
    using e2 eN by (simp_all add: np_min_Inr np_max_Inr smallest_positive_def largest_def)
  then show ?thesis using ls by (simp add: min_scale_of_def max_scale_of_def)
qed

lemma linspace_three: "linspace a b 3 = Inr [a, (a + b) / 2, b]"
  by (simp add: linspace_def upt_conv_Cons field_simps)

subsection \<open>The small graph\<close>

lemma laplacian_path:
  "laplacian_of [[0, 1, 0], [1, 0, 1], [0, 1, 0]] = Inr [[1, - 1, 0], [- 1, 2, - 1], [0, - 1, 1]]"
  by (simp add: laplacian_of_def sparse_sub_def diags_def row_sums_def float_sum_def upt_conv_Cons)

lemma cache_entries_path:
  "cache_entries [[1], [- 2], [1]] [3] scs = map (\<lambda>v. [map (\<lambda>s. v * exp (- s * 3)) scs]) [1, - 2, 1]"
  by (simp add: cache_entries_def)

lemma init_path:
  assumes "chosen_scales sc [3] ns = Inr scs" "scs \<noteq> []"
  shows "init path_eigs (StellarGraphObject path_graph) sc ns (- 1) = Inr (path_generator scs)"
proof -
  have nt: "node_types path_graph = [''default'']" by (simp add: path_graph_def)
  have wc: "wavelet_cache [[1], [- 2], [1]] [3] scs = Inr (cache_entries [[1], [- 2], [1]] [3] scs)"
    using assms(2) by (intro wavelet_cache_rect) simp_all
  show ?thesis
    unfolding init_single_type [OF nt]
    using assms(1) wc
    by (simp add: path_graph_def laplacian_path requested_k_def path_eigs_def
        path_generator_def cache_entries_path upt_conv_Cons)
qed

lemma scale_range_path:
  "min_scale_of [3] = - ln 0.95 / sqrt 9" "max_scale_of [3] = - ln 0.85 / sqrt 9"
  by (simp_all add: min_scale_of_def max_scale_of_def smallest_positive_def largest_def)

lemma scale_range_path_distinct: "max_scale_of [3] \<noteq> min_scale_of [3]"
  by (simp add: scale_range_path)

lemma auto_scales_path:
  "auto_scales [3] n = linspace (min_scale_of [3]) (max_scale_of [3]) n"
  by (simp add: auto_scales_def np_min_def np_max_def scale_range_path)

subsection \<open>The Laplacian\<close>






















lemma half_ulp_rounding [simp]:
  "round64 half_ulp = half_ulp" "round64 (- half_ulp) = - half_ulp" "round64 (1 + half_ulp) = 1"
  "half_ulp \<noteq> 0"
  by (simp_all only: half_ulp_def round64_small round64_tie round64_minus) simp




subsection \<open>Node types\<close>

text \<open>
  Claim C5.  For a StellarGraph whose list of node types has no element, or more than one,
  the constructor fails: with the IndexError of \<^verbatim>\<open>node_types[0]\<close> when there is
  none, and with the TypeError of line 36 when there are several.
\<close>

theorem init_node_type_count:
  assumes "length (node_types g) \<noteq> 1"
  shows "init eigs (StellarGraphObject g) sc ns ne =
         Inl (if node_types g = [] then IndexError ''list index out of range''
              else TypeError (''GraphWaveGenerator: node generator requires graph with single node type; ''
                               @ ''a graph with multiple node types is passed. Stopping.''))"
proof (cases "node_types g")
  case Nil
  then show ?thesis by (simp add: init_def first_item_def)
next
  case (Cons t rest)
  then have "length (node_types g) > 1" using assms by (cases rest) simp_all
  then show ?thesis using Cons by (simp add: init_def)
qed

theorem init_node_type_count_witness:
  "length (node_types (path_graph\<lparr>node_types := []\<rparr>)) \<noteq> 1
   \<and> init path_eigs (StellarGraphObject (path_graph\<lparr>node_types := []\<rparr>)) Auto 3 (- 1)
       = Inl (IndexError ''list index out of range'')
   \<and> length (node_types (path_graph\<lparr>node_types := [''a'', ''b'']\<rparr>)) \<noteq> 1
   \<and> init path_eigs (StellarGraphObject (path_graph\<lparr>node_types := [''a'', ''b'']\<rparr>)) Auto 3 (- 1)
       = Inl (TypeError (''GraphWaveGenerator: node generator requires graph with single node type; ''
                               @ ''a graph with multiple node types is passed. Stopping.''))"
proof -
  have a: "length (node_types (path_graph\<lparr>node_types := []\<rparr>)) \<noteq> 1" by simp
  have b: "length (node_types (path_graph\<lparr>node_types := [''a'', ''b'']\<rparr>)) \<noteq> 1" by simp
  show ?thesis
    using init_node_type_count [OF a, of path_eigs Auto 3 "- 1"]
          init_node_type_count [OF b, of path_eigs Auto 3 "- 1"] a b
    by simp
qed

subsection \<open>Automatic scales\<close>

text \<open>
  Claim C4.  With \<^verbatim>\<open>scales="auto"\<close>, when the graph has one node type, the
  Laplacian is built and the eigensolver returns eigenvalues none of which is strictly
  positive, the constructor raises the ValueError of \<^verbatim>\<open>min()\<close> on an empty array:
  no scale is computed and nothing is divided.
\<close>

theorem auto_scales_without_positive_eigenvalue:
  assumes "node_types g = [t0]"
    and "laplacian_of (to_adjacency_matrix g None) = Inr L"
    and "eigs L (requested_k ne L) = Inr (vals, vecs)"
    and "list_all (\<lambda>v. v \<le> 0) vals"
  shows "init eigs (StellarGraphObject g) Auto ns ne =
         Inl (ValueError ''zero-size array to reduction operation minimum which has no identity'')"
  using assms
  by (simp add: init_single_type chosen_scales_def auto_scales_no_positive)

theorem auto_scales_without_positive_eigenvalue_witness:
  "node_types path_graph = [''default'']
   \<and> laplacian_of (to_adjacency_matrix path_graph None) = Inr [[1, - 1, 0], [- 1, 2, - 1], [0, - 1, 1]]
   \<and> flat_eigs [[1, - 1, 0], [- 1, 2, - 1], [0, - 1, 1]] (requested_k (- 1) [[1, - 1, 0], [- 1, 2, - 1], [0, - 1, 1]])
       = Inr ([0], [[1], [1], [1]])
   \<and> list_all (\<lambda>v. v \<le> 0) [0 :: real]
   \<and> init flat_eigs (StellarGraphObject path_graph) Auto 3 (- 1) =
         Inl (ValueError ''zero-size array to reduction operation minimum which has no identity'')"
proof -
  have a: "node_types path_graph = [''default'']" by (simp add: path_graph_def)
  have b: "laplacian_of (to_adjacency_matrix path_graph None) = Inr [[1, - 1, 0], [- 1, 2, - 1], [0, - 1, 1]]"
    by (simp add: path_graph_def laplacian_path)
  have c: "flat_eigs [[1, - 1, 0], [- 1, 2, - 1], [0, - 1, 1]] (requested_k (- 1) [[1, - 1, 0], [- 1, 2, - 1], [0, - 1, 1]])
       = Inr ([0], [[1], [1], [1]])" by (simp add: flat_eigs_def)
  have d: "list_all (\<lambda>v. v \<le> 0) [0 :: real]" by simp
  show ?thesis
    using auto_scales_without_positive_eigenvalue
            [where eigs = flat_eigs and ne = "- 1" and ns = 3, OF a b c d] a b c d
    by simp
qed

text \<open>
  Claim C3, as stated, fails for \<^verbatim>\<open>num_scales = 1\<close>: \<^verbatim>\<open>np.linspace\<close> then
  returns the single value \<open>min_scale\<close>, and \<open>max_scale\<close> is not among the scales.
\<close>

theorem auto_scales_single_counterexample:
  "init path_eigs (StellarGraphObject path_graph) Auto 1 (- 1) = Inr (path_generator [min_scale_of [3]])
   \<and> eigen_vals (path_generator [min_scale_of [3]]) = [3]
   \<and> scales (path_generator [min_scale_of [3]]) = [min_scale_of [3]]
   \<and> max_scale_of [3] \<notin> set (scales (path_generator [min_scale_of [3]]))"
proof -
  have "chosen_scales Auto [3] 1 = Inr [min_scale_of [3]]"
    by (simp add: chosen_scales_def auto_scales_path linspace_one)
  then have "init path_eigs (StellarGraphObject path_graph) Auto 1 (- 1)
             = Inr (path_generator [min_scale_of [3]])"
    by (rule init_path) simp
  then show ?thesis
    using scale_range_path_distinct by (simp add: path_generator_def)
qed

text \<open>
  Claim C3, amended.  Whenever the constructor succeeds with \<^verbatim>\<open>scales="auto"\<close>,
  some eigenvalue is strictly positive, \<open>num_scales\<close> is at least 1, and with \<open>e2\<close>
  the smallest strictly positive eigenvalue, \<open>eN\<close> the largest eigenvalue,
  \<open>min_scale = - ln 0.95 / sqrt (eN * e2)\<close> and \<open>max_scale = - ln 0.85 / sqrt (eN * e2)\<close>
  the scales are the \<open>num_scales\<close> values
  \<open>min_scale + i * (max_scale - min_scale) / (num_scales - 1)\<close>; the first is
  \<open>min_scale\<close>, and the last is \<open>max_scale\<close> unless \<open>num_scales = 1\<close>, when the only
  scale is \<open>min_scale\<close>.
\<close>

theorem auto_scales_of_constructor:
  assumes "init eigs G Auto num_scales ne = Inr gen"
  shows "filter (\<lambda>v. 0 < v) (eigen_vals gen) \<noteq> []
         \<and> 1 \<le> num_scales
         \<and> int (length (scales gen)) = num_scales
         \<and> scales gen =
             map (\<lambda>i. min_scale_of (eigen_vals gen)
                       + real i * ((max_scale_of (eigen_vals gen) - min_scale_of (eigen_vals gen))
                                   / real_of_int (num_scales - 1)))
                 [0..<nat num_scales]
         \<and> hd (scales gen) = min_scale_of (eigen_vals gen)
         \<and> last (scales gen) =
             (if num_scales = 1 then min_scale_of (eigen_vals gen) else max_scale_of (eigen_vals gen))"
proof -
  let ?lo = "min_scale_of (eigen_vals gen)" and ?hi = "max_scale_of (eigen_vals gen)"
  from init_Inr [OF assms]
  have au: "auto_scales (eigen_vals gen) num_scales = Inr (scales gen)"
    and wc: "wavelet_cache (eigen_vecs gen) (eigen_vals gen) (scales gen) = Inr (Ues gen)"
    by (auto simp: chosen_scales_def)
  from auto_scales_Inr [OF au]
  have pos: "filter (\<lambda>v. 0 < v) (eigen_vals gen) \<noteq> []"
    and ls: "linspace ?lo ?hi num_scales = Inr (scales gen)" by simp_all
  have ne: "scales gen \<noteq> []" using wc by (simp add: wavelet_cache_Inr)
  have len: "int (length (scales gen)) = num_scales" using ls by (rule linspace_length)
  have n1: "1 \<le> num_scales" using ne len by (cases "scales gen") auto
  have form: "scales gen = map (\<lambda>i. ?lo + real i * ((?hi - ?lo) / real_of_int (num_scales - 1)))
                               [0..<nat num_scales]
               \<and> hd (scales gen) = ?lo
               \<and> last (scales gen) = (if num_scales = 1 then ?lo else ?hi)"
  proof -
    consider "num_scales = 1" | "2 \<le> num_scales" using n1 by linarith
    then show "scales gen = map (\<lambda>i. ?lo + real i * ((?hi - ?lo) / real_of_int (num_scales - 1)))
                               [0..<nat num_scales]
               \<and> hd (scales gen) = ?lo
               \<and> last (scales gen) = (if num_scales = 1 then ?lo else ?hi)"
    proof cases
      case 1
      then have "scales gen = [?lo]" using ls by (simp add: linspace_one)
      then show ?thesis using 1 by simp
    next
      case 2
      then have eq: "scales gen = map (\<lambda>i. ?lo + real i * ((?hi - ?lo) / real_of_int (num_scales - 1)))
                               [0..<nat num_scales]"
        using ls by (simp add: linspace_many)
      have nn: "0 < nat num_scales" using 2 by simp
      have r: "real (nat num_scales - 1) = real_of_int (num_scales - 1)"
        using 2 by (simp add: of_nat_diff)
      have nz: "real_of_int (num_scales - 1) \<noteq> 0" using 2 by simp
      have "hd (scales gen) = ?lo"
        by (subst eq) (simp add: hd_map_upt [OF nn])
      moreover have "last (scales gen) = ?hi"
      proof -
        have "last (scales gen)
              = ?lo + real (nat num_scales - 1) * ((?hi - ?lo) / real_of_int (num_scales - 1))"
          by (subst eq) (simp only: last_map_upt [OF nn])
        also have "\<dots> = ?hi" unfolding r using nz by simp
        finally show ?thesis .
      qed
      ultimately show ?thesis using eq 2 by simp
    qed
  qed
  show ?thesis using pos n1 len form by blast
qed

theorem auto_scales_of_constructor_witness:
  "init path_eigs (StellarGraphObject path_graph) Auto 3 (- 1)
     = Inr (path_generator [min_scale_of [3], (min_scale_of [3] + max_scale_of [3]) / 2, max_scale_of [3]])
   \<and> scales (path_generator [min_scale_of [3], (min_scale_of [3] + max_scale_of [3]) / 2, max_scale_of [3]])
     = map (\<lambda>i. min_scale_of [3] + real i * ((max_scale_of [3] - min_scale_of [3]) / real_of_int (3 - 1)))
           [0..<nat 3]"
proof -
  let ?g = "path_generator [min_scale_of [3], (min_scale_of [3] + max_scale_of [3]) / 2, max_scale_of [3]]"
  have "chosen_scales Auto [3] 3
        = Inr [min_scale_of [3], (min_scale_of [3] + max_scale_of [3]) / 2, max_scale_of [3]]"
    by (simp add: chosen_scales_def auto_scales_path linspace_three)
  then have i: "init path_eigs (StellarGraphObject path_graph) Auto 3 (- 1) = Inr ?g"
    by (rule init_path) simp
  have e: "eigen_vals ?g = [3]" by (simp add: path_generator_def)
  show ?thesis
    using auto_scales_of_constructor [OF i] i unfolding e by simp
qed

subsection \<open>Shapes of the cache and of the wavelet coefficients\<close>

lemma init_shapes:
  assumes "init eigs G sc ns ne = Inr gen"
  shows "scales gen \<noteq> []"
    and "list_all (\<lambda>r. length r = length (eigen_vals gen)) (eigen_vecs gen)"
    and "Ues gen = cache_entries (eigen_vecs gen) (eigen_vals gen) (scales gen)"
  using init_Inr [OF assms] by (auto simp: wavelet_cache_Inr)

lemma node_lookup_Inr:
  "node_lookup d ids = Inr idx \<longleftrightarrow> list_all2 (\<lambda>n i. d n = Some i) ids idx"
proof -
  have "(case d n of None \<Rightarrow> Inl none_to_int64_error
         | Some i \<Rightarrow> Inr i) = Inr i \<longleftrightarrow> d n = Some i" for n i
    by (cases "d n") simp_all
  then show ?thesis by (simp add: node_lookup_def map_result_Inr)
qed

lemma node_lookup_absent:
  assumes "n \<in> set ids" "d n = None"
  shows "node_lookup d ids = Inl none_to_int64_error"
proof -
  define f where "f = (\<lambda>n. case d n of None \<Rightarrow> Inl none_to_int64_error | Some i \<Rightarrow> Inr i)"
  have fn: "f n = Inl none_to_int64_error"
    using assms(2) by (simp add: f_def)
  have "\<exists>e'. map_result f ids = Inl e'"
    using assms(1) fn by (rule map_result_fails)
  then obtain e where e: "map_result f ids = Inl e" ..
  have "\<exists>x. x \<in> set ids \<and> f x = Inl e"
    using e by (rule map_result_Inl)
  then obtain x where "f x = Inl e" by blast
  then have "e = none_to_int64_error"
    by (cases "d x") (simp_all add: f_def)
  then show ?thesis using e by (simp add: node_lookup_def f_def)
qed

lemma take_rows_Inr:
  "take_rows M idx = Inr rows \<longleftrightarrow> list_all (\<lambda>i. i < length M) idx \<and> rows = map (\<lambda>i. M ! i) idx"
  by (auto simp: take_rows_def)

lemma cache_entries_shape:
  "length (cache_entries vecs vals scs) = length vecs"
  "M \<in> set (cache_entries vecs vals scs) \<Longrightarrow> length M = length vals"
  "M \<in> set (cache_entries vecs vals scs) \<Longrightarrow> vals \<noteq> [] \<Longrightarrow> ncols M = length scs"
proof -
  show "length (cache_entries vecs vals scs) = length vecs" by (simp add: cache_entries_def)
  show "length M = length vals" if "M \<in> set (cache_entries vecs vals scs)"
    using that by (auto simp: cache_entries_def)
  show "ncols M = length scs" if m: "M \<in> set (cache_entries vecs vals scs)" and v: "vals \<noteq> []"
  proof -
    obtain r where M: "M = map (\<lambda>j. map (\<lambda>s. r ! j * exp (- s * vals ! j)) scs) [0..<length vals]"
      using m by (auto simp: cache_entries_def)
    have "[0..<length vals] = 0 # [Suc 0..<length vals]"
      using v by (simp add: upt_conv_Cons)
    then show ?thesis unfolding M ncols_def by simp
  qed
qed

lemma einsum_cache_shape:
  assumes "vals \<noteq> []" "length x = length vals"
    and "einsum_ijk_j_ik (cache_entries vecs vals scs) x = Inr X"
  shows "has_shape X (length vecs) (length scs)"
proof -
  have X: "X = map (\<lambda>M. map (\<lambda>k. sum_list (map (\<lambda>j. M ! j ! k * x ! j) [0..<length x])) [0..<ncols M])
                   (cache_entries vecs vals scs)"
    using assms(3) by (auto simp: einsum_ijk_j_ik_def split: if_splits)
  show ?thesis
    unfolding X has_shape_def
    using assms(1) by (simp add: cache_entries_shape list_all_iff)
qed

lemma einsum_cache_total:
  assumes "length x = length vals"
  shows "\<exists>X. einsum_ijk_j_ik (cache_entries vecs vals scs) x = Inr X"
  using assms by (simp add: einsum_ijk_j_ik_def list_all_iff cache_entries_shape)

lemma wavelet_samples_Inr:
  assumes "wavelet_samples gen ids = Inr samples"
  shows "\<exists>idx. list_all2 (\<lambda>n i. node_index_dict gen n = Some i) ids idx
               \<and> list_all (\<lambda>i. i < length (eigen_vecs gen)) idx
               \<and> list_all2 (\<lambda>i X. einsum_ijk_j_ik (Ues gen) (eigen_vecs gen ! i) = Inr X) idx samples"
proof -
  from assms obtain idx rows where a: "node_lookup (node_index_dict gen) ids = Inr idx"
    and b: "take_rows (eigen_vecs gen) idx = Inr rows"
    and c: "map_result (\<lambda>x. einsum_ijk_j_ik (Ues gen) x) rows = Inr samples"
    unfolding wavelet_samples_def bind_eq_Inr by blast
  have a': "list_all2 (\<lambda>n i. node_index_dict gen n = Some i) ids idx"
    using a by (simp only: node_lookup_Inr)
  have b': "list_all (\<lambda>i. i < length (eigen_vecs gen)) idx" "rows = map (\<lambda>i. eigen_vecs gen ! i) idx"
    using b by (simp_all only: take_rows_Inr)
  have "list_all2 (\<lambda>x X. einsum_ijk_j_ik (Ues gen) x = Inr X) rows samples"
    using c by (simp only: map_result_Inr)
  then have "list_all2 (\<lambda>i X. einsum_ijk_j_ik (Ues gen) (eigen_vecs gen ! i) = Inr X) idx samples"
    unfolding b'(2) by (simp only: list_all2_map1)
  then show ?thesis using a' b'(1) by blast
qed

lemma wavelet_samples_shape:
  assumes init: "init eigs G sc ns ne = Inr gen"
    and k: "eigen_vals gen \<noteq> []"
    and ws: "wavelet_samples gen ids = Inr samples"
  shows "length samples = length ids"
    and "X \<in> set samples \<Longrightarrow> has_shape X (length (eigen_vecs gen)) (length (scales gen))"
    and "X \<in> set samples \<Longrightarrow> X \<noteq> []"
proof -
  from wavelet_samples_Inr [OF ws] obtain idx where
    lk: "list_all2 (\<lambda>n i. node_index_dict gen n = Some i) ids idx"
    and rg: "list_all (\<lambda>i. i < length (eigen_vecs gen)) idx"
    and es: "list_all2 (\<lambda>i X. einsum_ijk_j_ik (Ues gen) (eigen_vecs gen ! i) = Inr X) idx samples"
    by blast
  show "length samples = length ids"
    using lk es by (simp add: list_all2_lengthD)
  have sh: "has_shape X (length (eigen_vecs gen)) (length (scales gen)) \<and> X \<noteq> []"
    if "X \<in> set samples" for X
  proof -
    from that obtain n where n: "n < length samples" "X = samples ! n"
      by (auto simp: in_set_conv_nth)
    have ln: "length idx = length samples" using es by (rule list_all2_lengthD)
    define i where "i = idx ! n"
    have i: "i \<in> set idx" using n(1) ln by (simp add: i_def)
    have e: "einsum_ijk_j_ik (Ues gen) (eigen_vecs gen ! i) = Inr X"
      using list_all2_nthD2 [OF es n(1)] n(2) by (simp add: i_def)
    have il: "i < length (eigen_vecs gen)" using rg i by (simp add: list_all_iff)
    then have len: "length (eigen_vecs gen ! i) = length (eigen_vals gen)"
      using init_shapes(2) [OF init] by (simp add: list_all_length)
    have "has_shape X (length (eigen_vecs gen)) (length (scales gen))"
      using einsum_cache_shape [OF k len] e unfolding init_shapes(3) [OF init] by blast
    moreover from this il have "X \<noteq> []" by (auto simp: has_shape_def)
    ultimately show ?thesis by simp
  qed
  show "X \<in> set samples \<Longrightarrow> has_shape X (length (eigen_vecs gen)) (length (scales gen))"
    using sh by blast
  show "X \<in> set samples \<Longrightarrow> X \<noteq> []" using sh by blast
qed

subsection \<open>The characteristic function, batches and flow\<close>

lemma length_mean_response: "length (mean_response f X ts) = length ts * ncols X"
  by (simp add: mean_response_def length_concat comp_def sum_list_triv)

lemma reduce_mean_rect:
  assumes "has_shape X n m"
  shows "concat (reduce_mean_axis1 (map (map (map f)) (broadcast_mul X ts))) = mean_response f X ts"
proof -
  define h :: "matrix \<Rightarrow> vec" where
    "h = (\<lambda>M. case M of [] \<Rightarrow> []
               | r # _ \<Rightarrow> map (\<lambda>s. sum_list (map (\<lambda>row. row ! s) M) / real (length M)) [0..<length r])"
  define Y where "Y = (\<lambda>t. map (map f) (map (map (\<lambda>x. x * t)) X))"
  have rm: "reduce_mean_axis1 T = map h T" for T
    by (simp add: reduce_mean_axis1_def h_def)
  have bm: "map (map (map f)) (broadcast_mul X ts) = map Y ts"
    by (simp add: broadcast_mul_def Y_def)
  have one: "h (Y t) = map (\<lambda>s. sum_list (map (\<lambda>row. f (row ! s * t)) X) / real (length X)) [0..<ncols X]"
    for t
  proof (cases X)
    case Nil
    then show ?thesis by (simp add: h_def Y_def ncols_def)
  next
    case (Cons r rest)
    have rows: "length row = length r" if "row \<in> set X" for row
      using assms that Cons by (auto simp: has_shape_def list_all_iff)
    have nc: "ncols X = length r" using Cons by (simp add: ncols_def)
    have len: "length (Y t) = length X" by (simp add: Y_def)
    have hY: "h (Y t) = map (\<lambda>s. sum_list (map (\<lambda>row. row ! s) (Y t)) / real (length (Y t))) [0..<length r]"
      by (simp add: h_def Y_def Cons)
    have "sum_list (map (\<lambda>row. row ! s) (Y t)) = sum_list (map (\<lambda>row. f (row ! s * t)) X)"
      if "s < length r" for s
    proof -
      have "map (\<lambda>row. row ! s) (Y t) = map (\<lambda>row. map f (map (\<lambda>x. x * t) row) ! s) X"
        by (simp add: Y_def comp_def)
      also have "\<dots> = map (\<lambda>row. f (row ! s * t)) X"
        using that rows by (intro map_cong refl) simp
      finally show ?thesis by (simp only:)
    qed
    then have "map (\<lambda>s. sum_list (map (\<lambda>row. row ! s) (Y t)) / real (length (Y t))) [0..<length r]
               = map (\<lambda>s. sum_list (map (\<lambda>row. f (row ! s * t)) X) / real (length X)) [0..<length r]"
      unfolding len by (intro map_cong refl) simp
    then show ?thesis unfolding hY nc .
  qed
  have "reduce_mean_axis1 (map (map (map f)) (broadcast_mul X ts)) = map (\<lambda>t. h (Y t)) ts"
    unfolding rm bm by simp
  then show ?thesis
    unfolding mean_response_def by (simp only: one)
qed

lemma ecf_mean_response:
  assumes "has_shape X n m"
  shows "empirical_characteristic_function X ts = mean_response cos X ts @ mean_response sin X ts"
  unfolding empirical_characteristic_function_def Let_def concat_append
  by (simp only: reduce_mean_rect [OF assms])

lemma ncols_has_shape: "has_shape X n m \<Longrightarrow> X \<noteq> [] \<Longrightarrow> ncols X = m"
  by (cases X) (simp_all add: has_shape_def ncols_def)


lemma chunks_stop [simp]: "chunks 0 xs = []" "chunks n [] = []"
  by (simp_all add: chunks.simps)

lemma chunks_step: "0 < n \<Longrightarrow> xs \<noteq> [] \<Longrightarrow> chunks n xs = take n xs # chunks n (drop n xs)"
  by (subst chunks.simps) simp

lemma concat_chunks: "0 < n \<Longrightarrow> concat (chunks n xs) = xs"
proof (induction n xs rule: chunks.induct)
  case (1 n xs)
  show ?case
  proof (cases "xs = []")
    case True
    then show ?thesis by simp
  next
    case False
    then have "chunks n xs = take n xs # chunks n (drop n xs)"
      using "1.prems" by (simp add: chunks_step)
    moreover have "concat (chunks n (drop n xs)) = drop n xs"
      using "1.IH" "1.prems" False by simp
    ultimately show ?thesis by simp
  qed
qed

lemma chunks_elem: "b \<in> set (chunks n xs) \<Longrightarrow> b \<noteq> [] \<and> length b \<le> n \<and> set b \<subseteq> set xs"
proof (induction n xs rule: chunks.induct)
  case (1 n xs)
  show ?case
  proof (cases "n = 0 \<or> xs = []")
    case True
    then show ?thesis using "1.prems" by auto
  next
    case False
    then have c: "chunks n xs = take n xs # chunks n (drop n xs)" by (simp add: chunks_step)
    from "1.prems" c consider "b = take n xs" | "b \<in> set (chunks n (drop n xs))" by auto
    then show ?thesis
    proof cases
      case 1
      then show ?thesis using False by (auto dest: in_set_takeD)
    next
      case 2
      then have "b \<noteq> [] \<and> length b \<le> n \<and> set b \<subseteq> set (drop n xs)"
        using "1.IH" False by blast
      then show ?thesis by (auto dest: in_set_dropD)
    qed
  qed
qed

lemma map_result_chunks:
  assumes "map_result f xs = Inr ys"
  shows "map_result (map_result f) (chunks n xs) = Inr (chunks n ys)"
  using assms
proof (induction n xs arbitrary: ys rule: chunks.induct)
  case (1 n xs)
  have l2: "list_all2 (\<lambda>x y. f x = Inr y) xs ys" using "1.prems" by (simp add: map_result_Inr)
  have len: "length xs = length ys" using l2 by (rule list_all2_lengthD)
  show ?case
  proof (cases "n = 0 \<or> xs = []")
    case True
    then show ?thesis using len by auto
  next
    case False
    then have n: "0 < n" and xs: "xs \<noteq> []" and ys: "ys \<noteq> []" using len by auto
    have t: "map_result f (take n xs) = Inr (take n ys)"
      using l2 by (simp add: map_result_Inr list_all2_takeI)
    have d: "map_result f (drop n xs) = Inr (drop n ys)"
      using l2 by (simp add: map_result_Inr list_all2_dropI)
    have "map_result (map_result f) (chunks n (drop n xs)) = Inr (chunks n (drop n ys))"
      using "1.IH" False d by blast
    then show ?thesis
      using t by (simp add: chunks_step [OF n xs] chunks_step [OF n ys])
  qed
qed

lemma list_all_chunks: "list_all P xs \<Longrightarrow> list_all (list_all P) (chunks n xs)"
  unfolding list_all_iff using chunks_elem [of _ n xs] by blast

subsection \<open>The dataset of flow\<close>

lemma dataset_map_Inr:
  "dataset_map f th d = Inr d' \<longleftrightarrow>
     in_int64 th \<and> (th = - 1 \<or> 0 < th) \<and> d' = Unbatched (slices d) (\<lambda>s. bind (stage d s) f)"
  by (auto simp: dataset_map_def)

lemma batch_Inr:
  "batch bs d = Inr ds \<longleftrightarrow>
     in_int64 bs \<and> 0 < bs \<and> ds = Dataset (chunks (nat bs) (slices d)) (stage d) False"
  by (auto simp: batch_def)

lemma flow_resolved:
  assumes lk: "node_lookup (node_index_dict gen) ids = Inr idx"
    and rg: "list_all (\<lambda>i. i < length (eigen_vecs gen)) idx"
    and ok: "valid_flow_arguments bs th"
  shows "flow gen ids sp bs tg rp th
         = Inr (Dataset (chunks (nat bs) (flow_slices (map (\<lambda>i. eigen_vecs gen ! i) idx) tg))
                        (element_stage (node_stage (Ues gen) sp) Inr) rp)"
proof -
  have st: "(\<lambda>s. bind (einsum_ijk_j_ik (Ues gen) s) (\<lambda>x. Inr (empirical_characteristic_function x sp)))
            = node_stage (Ues gen) sp"
    by (simp add: node_stage_def fun_eq_iff)
  have th: "in_int64 th" "th = - 1 \<or> 0 < th" and bs: "in_int64 bs" "0 < bs"
    using ok by (simp_all add: valid_flow_arguments_def)
  have m1: "dataset_map (einsum_ijk_j_ik (Ues gen)) th (Unbatched rows Inr)
            = Inr (Unbatched rows (einsum_ijk_j_ik (Ues gen)))" for rows
    using th by (simp add: dataset_map_def)
  have m2: "dataset_map (\<lambda>x. Inr (empirical_characteristic_function x sp)) th
              (Unbatched rows (einsum_ijk_j_ik (Ues gen)))
            = Inr (Unbatched rows (node_stage (Ues gen) sp))" for rows
    using th by (simp add: dataset_map_def st)
  have b: "batch bs (cache d) = Inr (Dataset (chunks (nat bs) (slices d)) (stage d) False)" for d :: "('b slice, 'b element) unbatched"
    using bs by (simp add: batch_def cache_def)
  show ?thesis
    using lk rg
    by (cases tg; cases rp)
       (simp_all add: flow_def take_rows_def m1 m2 b untargeted_def zip_datasets_def
          from_tensor_slices_def repeat_dataset_def flow_slices_def)
qed

lemma flow_Inr_D:
  assumes "flow gen ids sp bs tg rp th = Inr ds"
  shows "\<exists>idx. node_lookup (node_index_dict gen) ids = Inr idx
              \<and> list_all (\<lambda>i. i < length (eigen_vecs gen)) idx
              \<and> valid_flow_arguments bs th"
proof -
  from assms obtain idx rows d1 d2 batched where a: "node_lookup (node_index_dict gen) ids = Inr idx"
    and b: "take_rows (eigen_vecs gen) idx = Inr rows"
    and c: "dataset_map (\<lambda>x. einsum_ijk_j_ik (Ues gen) x) th (from_tensor_slices rows) = Inr d1"
    and d: "batch bs (cache (case tg of None \<Rightarrow> untargeted d2
                             | Some t \<Rightarrow> zip_datasets d2 (from_tensor_slices t))) = Inr batched"
    unfolding flow_def Let_def bind_eq_Inr by blast
  have "list_all (\<lambda>i. i < length (eigen_vecs gen)) idx" using b by (simp add: take_rows_Inr)
  moreover have "in_int64 th \<and> (th = - 1 \<or> 0 < th)" using c by (simp add: dataset_map_Inr)
  moreover have "in_int64 bs \<and> 0 < bs" using d by (simp add: batch_Inr)
  ultimately show ?thesis using a by (auto simp: valid_flow_arguments_def)
qed

lemma flow_Inr:
  "flow gen ids sp bs tg rp th = Inr ds \<longleftrightarrow>
     (\<exists>idx. node_lookup (node_index_dict gen) ids = Inr idx
          \<and> list_all (\<lambda>i. i < length (eigen_vecs gen)) idx
          \<and> valid_flow_arguments bs th
          \<and> ds = Dataset (chunks (nat bs) (flow_slices (map (\<lambda>i. eigen_vecs gen ! i) idx) tg))
                         (element_stage (node_stage (Ues gen) sp) Inr) rp)"
proof
  assume fl: "flow gen ids sp bs tg rp th = Inr ds"
  from flow_Inr_D [OF fl] obtain idx where a: "node_lookup (node_index_dict gen) ids = Inr idx"
    and b: "list_all (\<lambda>i. i < length (eigen_vecs gen)) idx"
    and c: "valid_flow_arguments bs th"
    by blast
  show "\<exists>idx. node_lookup (node_index_dict gen) ids = Inr idx
          \<and> list_all (\<lambda>i. i < length (eigen_vecs gen)) idx
          \<and> valid_flow_arguments bs th
          \<and> ds = Dataset (chunks (nat bs) (flow_slices (map (\<lambda>i. eigen_vecs gen ! i) idx) tg))
                         (element_stage (node_stage (Ues gen) sp) Inr) rp"
    using fl a b c unfolding flow_resolved [OF a b c] by blast
next
  assume "\<exists>idx. node_lookup (node_index_dict gen) ids = Inr idx
          \<and> list_all (\<lambda>i. i < length (eigen_vecs gen)) idx
          \<and> valid_flow_arguments bs th
          \<and> ds = Dataset (chunks (nat bs) (flow_slices (map (\<lambda>i. eigen_vecs gen ! i) idx) tg))
                         (element_stage (node_stage (Ues gen) sp) Inr) rp"
  then show "flow gen ids sp bs tg rp th = Inr ds"
    using flow_resolved by blast
qed

lemma flow_absent:
  assumes "n \<in> set node_ids" "node_index_dict gen n = None"
  shows "flow gen node_ids sp bs tg rp th = Inl none_to_int64_error"
  using node_lookup_absent [where d = "node_index_dict gen", OF assms]
  by (simp add: flow_def)

lemma node_stage_Inr:
  "einsum_ijk_j_ik U x = Inr X \<Longrightarrow> node_stage U ts x = Inr (empirical_characteristic_function X ts)"
  by (simp add: node_stage_def)

lemma node_stage_Inl: "node_stage U ts x = Inl e \<Longrightarrow> e = einsum_shape_error"
  by (auto simp: node_stage_def einsum_ijk_j_ik_def bind_eq_Inl split: if_splits)

lemma element_stage_Inl:
  "element_stage (node_stage U ts) Inr s = Inl e \<Longrightarrow> e = einsum_shape_error"
  by (cases s) (auto simp: bind_eq_Inl dest: node_stage_Inl)

lemma stage_not_lookup_error:
  "map_result (map_result (element_stage (node_stage U ts) Inr)) bs \<noteq> Inl none_to_int64_error"
proof
  assume "map_result (map_result (element_stage (node_stage U ts) Inr)) bs = Inl none_to_int64_error"
  from map_result_Inl [OF this] obtain b where
    "b \<in> set bs \<and> map_result (element_stage (node_stage U ts) Inr) b = Inl none_to_int64_error" ..
  then have "map_result (element_stage (node_stage U ts) Inr) b = Inl none_to_int64_error" ..
  from map_result_Inl [OF this] obtain s where
    "s \<in> set b \<and> element_stage (node_stage U ts) Inr s = Inl none_to_int64_error" ..
  then have "element_stage (node_stage U ts) Inr s = Inl none_to_int64_error" ..
  then have "none_to_int64_error = einsum_shape_error" by (rule element_stage_Inl)
  then show False by (simp add: none_to_int64_error_def einsum_shape_error_def)
qed

lemma stage_values:
  assumes "list_all2 (\<lambda>x X. einsum_ijk_j_ik U x = Inr X) rows samples"
  shows "map_result (element_stage (node_stage U ts) Inr) (flow_slices rows tg)
         = Inr (flow_elements samples ts tg)"
proof -
  have len: "length rows = length samples" using assms by (rule list_all2_lengthD)
  have nth: "node_stage U ts (rows ! j) = Inr (empirical_characteristic_function (samples ! j) ts)"
    if "j < length rows" for j
    using list_all2_nthD [OF assms that] by (rule node_stage_Inr)
  show ?thesis
  proof (cases tg)
    case None
    have "list_all2 (\<lambda>s e. element_stage (node_stage U ts) Inr s = Inr e)
            (map Row rows) (map (\<lambda>X. Embedding (empirical_characteristic_function X ts)) samples)"
      unfolding list_all2_conv_all_nth using len nth by simp
    then show ?thesis by (simp add: None flow_slices_def flow_elements_def map_result_Inr)
  next
    case (Some t)
    have "list_all2 (\<lambda>s e. element_stage (node_stage U ts) Inr s = Inr e)
            (map (\<lambda>(x, t). RowTarget x t) (zip rows t))
            (map (\<lambda>(X, t). WithTarget (empirical_characteristic_function X ts) t) (zip samples t))"
      unfolding list_all2_conv_all_nth using len nth by simp
    then show ?thesis by (simp add: Some flow_slices_def flow_elements_def map_result_Inr)
  qed
qed

lemma flow_elements_embeddings:
  "map embedding_of (flow_elements samples sp tg)
   = map (\<lambda>X. empirical_characteristic_function X sp)
         (case tg of None \<Rightarrow> samples | Some t \<Rightarrow> take (length t) samples)"
proof (cases tg)
  case None
  then show ?thesis by (simp add: flow_elements_def comp_def)
next
  case (Some t)
  have "map embedding_of (flow_elements samples sp tg)
        = map (\<lambda>X. empirical_characteristic_function X sp) (map fst (zip samples t))"
    by (simp add: Some flow_elements_def comp_def case_prod_unfold)
  also have "map fst (zip samples t) = take (length t) samples"
    by (simp add: map_fst_zip_take min_def)
  finally show ?thesis by (simp add: Some)
qed

lemma wavelet_samples_single:
  assumes "node_index_dict gen n = Some i" "i < length (eigen_vecs gen)"
    and "einsum_ijk_j_ik (Ues gen) (eigen_vecs gen ! i) = Inr X"
  shows "wavelet_samples gen [n] = Inr [X]"
  using assms
  by (simp add: wavelet_samples_def node_lookup_def take_rows_def)

lemma wavelet_samples_order:
  assumes "wavelet_samples gen ids = Inr samples"
  shows "list_all2 (\<lambda>n X. wavelet_samples gen [n] = Inr [X]) ids samples"
proof -
  from wavelet_samples_Inr [OF assms] obtain idx where
    lk: "list_all2 (\<lambda>n i. node_index_dict gen n = Some i) ids idx"
    and rg: "list_all (\<lambda>i. i < length (eigen_vecs gen)) idx"
    and es: "list_all2 (\<lambda>i X. einsum_ijk_j_ik (Ues gen) (eigen_vecs gen ! i) = Inr X) idx samples"
    by blast
  have l1: "length ids = length idx" using lk by (rule list_all2_lengthD)
  have l2: "length idx = length samples" using es by (rule list_all2_lengthD)
  show ?thesis
    unfolding list_all2_conv_all_nth
  proof (intro conjI allI impI)
    show "length ids = length samples" using l1 l2 by simp
  next
    fix j assume j: "j < length ids"
    have a: "node_index_dict gen (ids ! j) = Some (idx ! j)"
      using list_all2_nthD [OF lk j] .
    have b: "idx ! j < length (eigen_vecs gen)"
      using rg j l1 by (simp add: list_all_length)
    have c: "einsum_ijk_j_ik (Ues gen) (eigen_vecs gen ! (idx ! j)) = Inr (samples ! j)"
      using list_all2_nthD [OF es] j l1 by simp
    show "wavelet_samples gen [ids ! j] = Inr [samples ! j]"
      using a b c by (rule wavelet_samples_single)
  qed
qed

lemma flow_built:
  assumes init: "init eigs G sc ns ne = Inr gen"
    and fl: "flow gen ids sp bs tg rp th = Inr ds"
  obtains idx samples where
    "list_all2 (\<lambda>n i. node_index_dict gen n = Some i) ids idx"
    "list_all (\<lambda>i. i < length (eigen_vecs gen)) idx"
    "0 < bs"
    "ds = Dataset (chunks (nat bs) (flow_slices (map (\<lambda>i. eigen_vecs gen ! i) idx) tg))
                  (element_stage (node_stage (Ues gen) sp) Inr) rp"
    "wavelet_samples gen ids = Inr samples"
    "map_result (map_result (transform ds)) (one_pass ds)
       = Inr (chunks (nat bs) (flow_elements samples sp tg))"
proof -
  from fl obtain idx where lk: "node_lookup (node_index_dict gen) ids = Inr idx"
    and rg: "list_all (\<lambda>i. i < length (eigen_vecs gen)) idx"
    and ok: "valid_flow_arguments bs th"
    and ds: "ds = Dataset (chunks (nat bs) (flow_slices (map (\<lambda>i. eigen_vecs gen ! i) idx) tg))
                          (element_stage (node_stage (Ues gen) sp) Inr) rp"
    unfolding flow_Inr by blast
  define rows where "rows = map (\<lambda>i. eigen_vecs gen ! i) idx"
  define v where "v = (\<lambda>x. projr (einsum_ijk_j_ik (Ues gen) x))"
  define samples where "samples = map v rows"
  have ev: "einsum_ijk_j_ik (Ues gen) x = Inr (v x)" if "x \<in> set rows" for x
  proof -
    from that obtain i where i: "i \<in> set idx" "x = eigen_vecs gen ! i"
      by (auto simp: rows_def)
    have "i < length (eigen_vecs gen)" using rg i(1) by (simp add: list_all_iff)
    then have "length x = length (eigen_vals gen)"
      using init_shapes(2) [OF init] i(2) by (simp add: list_all_length)
    then obtain X where "einsum_ijk_j_ik (Ues gen) x = Inr X"
      unfolding init_shapes(3) [OF init] using einsum_cache_total by blast
    then show ?thesis by (simp add: v_def)
  qed
  have mr: "map_result (\<lambda>x. einsum_ijk_j_ik (Ues gen) x) rows = Inr samples"
    unfolding samples_def using ev by (rule map_result_total)
  have ws: "wavelet_samples gen ids = Inr samples"
    using lk rg mr by (simp add: wavelet_samples_def take_rows_def rows_def)
  have l2: "list_all2 (\<lambda>x X. einsum_ijk_j_ik (Ues gen) x = Inr X) rows samples"
    using mr by (simp only: map_result_Inr)
  have "map_result (element_stage (node_stage (Ues gen) sp) Inr) (flow_slices rows tg)
        = Inr (flow_elements samples sp tg)"
    using l2 by (rule stage_values)
  then have "map_result (map_result (element_stage (node_stage (Ues gen) sp) Inr))
               (chunks (nat bs) (flow_slices rows tg))
             = Inr (chunks (nat bs) (flow_elements samples sp tg))"
    by (rule map_result_chunks)
  then have pass: "map_result (map_result (transform ds)) (one_pass ds)
                   = Inr (chunks (nat bs) (flow_elements samples sp tg))"
    by (simp add: ds rows_def)
  have lk': "list_all2 (\<lambda>n i. node_index_dict gen n = Some i) ids idx"
    using lk by (simp only: node_lookup_Inr)
  have bs: "0 < bs" using ok by (simp add: valid_flow_arguments_def)
  show ?thesis using that [OF lk' rg bs ds ws pass] .
qed

subsection \<open>Iteration\<close>

lemma pull_values:
  assumes v: "\<And>b. b \<in> set (one_pass ds) \<Longrightarrow> map_result (transform ds) b = Inr (v b)"
    and sub: "set rem \<subseteq> set (one_pass ds)"
  shows "pull n (Iterator ds rem) = Inr (map v (pull_slices n (one_pass ds) (forever ds) rem))"
  using sub
proof (induction n arbitrary: rem)
  case 0
  then show ?case by simp
next
  case (Suc n)
  show ?case
  proof (cases rem)
    case (Cons b rest)
    have b: "map_result (transform ds) b = Inr (v b)" using Suc.prems Cons v by simp
    have "pull n (Iterator ds rest) = Inr (map v (pull_slices n (one_pass ds) (forever ds) rest))"
      using Suc.IH Suc.prems Cons by simp
    then show ?thesis using Cons b by simp
  next
    case Nil
    show ?thesis
    proof (cases "forever ds")
      case False
      then show ?thesis using Nil by simp
    next
      case True
      show ?thesis
      proof (cases "one_pass ds")
        case Nil': Nil
        then show ?thesis using Nil True by simp
      next
        case (Cons b rest)
        have b: "map_result (transform ds) b = Inr (v b)" using Cons v by simp
        have "set rest \<subseteq> set (one_pass ds)" using Cons by auto
        then have "pull n (Iterator ds rest)
                   = Inr (map v (pull_slices n (one_pass ds) (forever ds) rest))"
          by (rule Suc.IH)
        then show ?thesis using Nil True Cons b by simp
      qed
    qed
  qed
qed

lemma pull_slices_finite: "pull_slices n pass False rem = take n rem"
proof (induction n arbitrary: rem)
  case 0
  then show ?case by simp
next
  case (Suc n)
  then show ?case by (cases rem) simp_all
qed

lemma pull_slices_append:
  "pull_slices (length rem + n) pass rep rem = rem @ pull_slices n pass rep []"
  by (induction rem) simp_all

lemma pull_slices_restart:
  "pass \<noteq> [] \<Longrightarrow> pull_slices n pass True [] = pull_slices n pass True pass"
  by (cases n; cases pass) simp_all

lemma pull_slices_two_passes:
  assumes "pass \<noteq> []"
  shows "pull_slices (2 * length pass) pass True pass = pass @ pass"
proof -
  have "pull_slices (length pass + (length pass + 0)) pass True pass
        = pass @ pull_slices (length pass + 0) pass True pass"
    using pull_slices_restart [OF assms, of "length pass + 0"]
    by (simp only: pull_slices_append)
  also have "pull_slices (length pass + 0) pass True pass = pass @ pull_slices 0 pass True []"
    by (simp only: pull_slices_append)
  finally show ?thesis by (simp add: mult_2)
qed

lemma pull_slices_length:
  "pass \<noteq> [] \<Longrightarrow> length (pull_slices n pass True rem) = n"
proof (induction n arbitrary: rem)
  case 0
  then show ?case by simp
next
  case (Suc n)
  then show ?case by (cases rem; cases pass) simp_all
qed

lemma pull_slices_empty: "pull_slices n [] rep [] = []"
  by (cases n) simp_all

lemma pull_slices_subset:
  "set (pull_slices n pass rep rem) \<subseteq> set pass \<union> set rem"
proof (induction n arbitrary: rem)
  case 0
  then show ?case by simp
next
  case (Suc n)
  show ?case
  proof (cases rem)
    case (Cons b rest)
    then show ?thesis using Suc.IH [of rest] by auto
  next
    case rem: Nil
    show ?thesis
    proof (cases pass)
      case Nil
      show ?thesis unfolding rem Nil pull_slices_empty by simp
    next
      case (Cons b rest)
      show ?thesis
      proof (cases rep)
        case True
        have "pull_slices (Suc n) pass rep [] = b # pull_slices n pass rep rest"
          using Cons True by simp
        moreover have "set (pull_slices n pass rep rest) \<subseteq> set pass"
          using Suc.IH [of rest] Cons by auto
        ultimately show ?thesis using rem Cons by simp
      next
        case False
        have "pull_slices (Suc n) pass rep [] = []" using False by simp
        then show ?thesis using rem by simp
      qed
    qed
  qed
qed

lemma map_pull_slices:
  "map v (pull_slices n pass rep rem) = pull_slices n (map v pass) rep (map v rem)"
proof (induction n arbitrary: rem)
  case 0
  then show ?case by simp
next
  case (Suc n)
  show ?case
  proof (cases rem)
    case (Cons b rest)
    then show ?thesis using Suc.IH [of rest] by simp
  next
    case rem: Nil
    show ?thesis
    proof (cases pass)
      case Nil
      then show ?thesis using rem by simp
    next
      case (Cons b rest)
      then show ?thesis using rem Suc.IH [of rest] by (cases rep) simp_all
    qed
  qed
qed

lemma pull_batches:
  assumes "map_result (map_result (transform ds)) (one_pass ds) = Inr batches"
  shows "pull n (make_iterator ds) = Inr (pull_slices n batches (forever ds) batches)"
proof -
  define v where "v = (\<lambda>b. projr (map_result (transform ds) b))"
  have l2: "list_all2 (\<lambda>b vb. map_result (transform ds) b = Inr vb) (one_pass ds) batches"
    using assms by (simp only: map_result_Inr)
  have len: "length (one_pass ds) = length batches" using l2 by (rule list_all2_lengthD)
  have vb: "map_result (transform ds) b = Inr (v b)" if "b \<in> set (one_pass ds)" for b
  proof -
    from that obtain j where j: "j < length (one_pass ds)" "b = one_pass ds ! j"
      by (auto simp: in_set_conv_nth)
    have "map_result (transform ds) b = Inr (batches ! j)"
      using list_all2_nthD [OF l2 j(1)] j(2) by simp
    then show ?thesis by (simp add: v_def)
  qed
  have mv: "map v (one_pass ds) = batches"
  proof (rule nth_equalityI)
    show "length (map v (one_pass ds)) = length batches" using len by simp
  next
    fix j assume "j < length (map v (one_pass ds))"
    then have j: "j < length (one_pass ds)" by simp
    have "map_result (transform ds) (one_pass ds ! j) = Inr (batches ! j)"
      using list_all2_nthD [OF l2 j] .
    then show "map v (one_pass ds) ! j = batches ! j" using j by (simp add: v_def)
  qed
  have "pull n (Iterator ds (one_pass ds))
        = Inr (map v (pull_slices n (one_pass ds) (forever ds) (one_pass ds)))"
    by (rule pull_values [where v = v, OF vb subset_refl])
  then show ?thesis
    by (simp add: make_iterator_def map_pull_slices mv)
qed

lemma pull_eq:
  "pull n (Iterator ds rem)
   = map_result (map_result (transform ds)) (pull_slices n (one_pass ds) (forever ds) rem)"
proof (induction n arbitrary: rem)
  case 0
  then show ?case by simp
next
  case (Suc n)
  have step: "bind (map_result (transform ds) b)
                (\<lambda>els. bind (pull n (Iterator ds rest)) (\<lambda>bs. Inr (els # bs)))
              = map_result (map_result (transform ds))
                  (b # pull_slices n (one_pass ds) (forever ds) rest)" for b rest
    unfolding Suc.IH [of rest]
    by (cases "map_result (transform ds) b";
        cases "map_result (map_result (transform ds)) (pull_slices n (one_pass ds) (forever ds) rest)")
       simp_all
  show ?case
  proof (cases rem)
    case (Cons b rest)
    have "pull (Suc n) (Iterator ds (b # rest))
          = bind (map_result (transform ds) b)
              (\<lambda>els. bind (pull n (Iterator ds rest)) (\<lambda>bs. Inr (els # bs)))"
      by (cases "map_result (transform ds) b") simp_all
    then show ?thesis unfolding Cons step by simp
  next
    case rem: Nil
    show ?thesis
    proof (cases "forever ds")
      case False
      then show ?thesis using rem by simp
    next
      case True
      show ?thesis
      proof (cases "one_pass ds")
        case Nil
        then show ?thesis using rem True by simp
      next
        case (Cons b rest)
        have "pull (Suc n) (Iterator ds [])
              = bind (map_result (transform ds) b)
                  (\<lambda>els. bind (pull n (Iterator ds rest)) (\<lambda>bs. Inr (els # bs)))"
          using True Cons by (cases "map_result (transform ds) b") simp_all
        moreover have "pull_slices (Suc n) (one_pass ds) (forever ds) []
                       = b # pull_slices n (one_pass ds) (forever ds) rest"
          using True Cons by simp
        ultimately show ?thesis unfolding rem step by simp
      qed
    qed
  qed
qed

subsection \<open>The small graph, queried\<close>

lemma path_generator_fields [simp]:
  "eigen_vals (path_generator scs) = [3]"
  "eigen_vecs (path_generator scs) = [[1], [- 2], [1]]"
  "scales (path_generator scs) = scs"
  "node_index_dict (path_generator scs) = dict_zip [10, 20, 30] [0..<3]"
  "Ues (path_generator scs) = map (\<lambda>v. [map (\<lambda>s. v * exp (- s * 3)) scs]) [1, - 2, 1]"
  by (simp_all add: path_generator_def)

lemma init_path_explicit:
  "scs \<noteq> [] \<Longrightarrow>
   init path_eigs (StellarGraphObject path_graph) (Explicit scs) ns (- 1) = Inr (path_generator scs)"
  by (rule init_path) (simp_all add: chosen_scales_def)

lemma path_lookup:
  "dict_zip [10, 20, 30] [0..<3] (10::nat) = Some 0"
  "dict_zip [10, 20, 30] [0..<3] (20::nat) = Some 1"
  "dict_zip [10, 20, 30] [0..<3] (30::nat) = Some 2"
  "dict_zip [10, 20, 30] [0..<3] (7::nat) = None"
  "dict_zip [10, 20, 30] [0..<3] (9::nat) = None"
  by (simp_all add: dict_zip_def upt_conv_Cons)

lemma wavelet_samples_path:
  "wavelet_samples (path_generator [1, 2]) [10, 20] = Inr [path_samples_10, path_samples_20]"
  by (simp add: wavelet_samples_def node_lookup_def path_lookup take_rows_def
      einsum_ijk_j_ik_def ncols_def path_samples_10_def path_samples_20_def)

lemma path_einsum:
  "einsum_ijk_j_ik (Ues (path_generator [1, 2])) [1] = Inr path_samples_10"
  "einsum_ijk_j_ik (Ues (path_generator [1, 2])) [- 2] = Inr path_samples_20"
  by (simp_all add: einsum_ijk_j_ik_def ncols_def path_samples_10_def path_samples_20_def)

lemma path_stage_values:
  "path_stage (Row [1]) = Inr (Embedding (empirical_characteristic_function path_samples_10 [0, 1]))"
  "path_stage (Row [- 2]) = Inr (Embedding (empirical_characteristic_function path_samples_20 [0, 1]))"
  "path_stage (RowTarget [1] t)
     = Inr (WithTarget (empirical_characteristic_function path_samples_10 [0, 1]) t)"
  unfolding path_stage_def
  by (simp_all only: element_stage.simps bind_simps
        node_stage_Inr [OF path_einsum(1)] node_stage_Inr [OF path_einsum(2)])

lemma valid_2_1: "valid_flow_arguments 2 1"
  by (simp add: valid_flow_arguments_def in_int64_def)

lemma flow_path:
  "flow (path_generator [1, 2]) [10, 20] [0, 1] 2 None rp 1
   = Inr (Dataset [[Row [1], Row [- 2]]] path_stage rp)"
proof -
  have lk: "node_lookup (node_index_dict (path_generator [1, 2])) [10, 20] = Inr [0, 1]"
    by (simp add: node_lookup_def path_lookup)
  have rg: "list_all (\<lambda>i. i < length (eigen_vecs (path_generator [1, 2]))) [0, 1]" by simp
  have ch: "chunks 2 [Row [1], Row [- 2] :: nat slice] = [[Row [1], Row [- 2]]]"
    by (simp add: chunks_step)
  show ?thesis
    unfolding flow_resolved [OF lk rg valid_2_1]
    by (simp add: flow_slices_def ch path_stage_def)
qed

lemma flow_path_empty:
  "flow (path_generator [1, 2]) [] [0, 1] 2 None rp 1 = Inr (Dataset [] path_stage rp)"
proof -
  have lk: "node_lookup (node_index_dict (path_generator [1, 2])) [] = Inr []"
    by (simp add: node_lookup_def)
  have rg: "list_all (\<lambda>i. i < length (eigen_vecs (path_generator [1, 2]))) []" by simp
  show ?thesis
    unfolding flow_resolved [OF lk rg valid_2_1]
    by (simp add: flow_slices_def path_stage_def)
qed

lemma flow_path_target:
  "flow (path_generator [1, 2]) [10, 20] [0, 1] 2 (Some [5]) rp 1
   = Inr (Dataset [[RowTarget [1] 5]] path_stage rp)"
proof -
  have lk: "node_lookup (node_index_dict (path_generator [1, 2])) [10, 20] = Inr [0, 1]"
    by (simp add: node_lookup_def path_lookup)
  have rg: "list_all (\<lambda>i. i < length (eigen_vecs (path_generator [1, 2]))) [0, 1]" by simp
  have ch: "chunks 2 [RowTarget [1] (5::nat)] = [[RowTarget [1] 5]]"
    by (simp add: chunks_step)
  show ?thesis
    unfolding flow_resolved [OF lk rg valid_2_1]
    by (simp add: flow_slices_def ch path_stage_def)
qed

subsection \<open>Wavelet coefficients and embeddings\<close>




text \<open>
  Claim C2.  Let \<open>flow\<close> return a dataset for a generator that the constructor
  returned, with at least one eigenpair.  Then every node id has its tensor of wavelet
  coefficients, of shape \<open>(N, S)\<close> for \<open>S\<close> scales, and the stage of the dataset
  computes every batch of a pass.  The embeddings of the pass are, in the order of the node
  ids (as many as there are targets, when there are targets), the \<open>m * S\<close> mean cosine
  responses of the tensor of the node followed by its \<open>m * S\<close> mean sine responses,
  for \<open>m\<close> sample points: a vector of length \<open>2 * m * S\<close>, whatever the node.
  Iterating the dataset yields batches of that pass and nothing else.
\<close>

theorem embedding_length:
  assumes init: "init eigs G sc ns ne = Inr gen"
    and k: "eigen_vals gen \<noteq> []"
    and fl: "flow gen node_ids sample_points batch_size targets repeat threads = Inr ds"
  shows "\<exists>samples batches.
           wavelet_samples gen node_ids = Inr samples
         \<and> list_all2 (\<lambda>n X. wavelet_samples gen [n] = Inr [X]) node_ids samples
         \<and> list_all (\<lambda>X. has_shape X (length (eigen_vecs gen)) (length (scales gen))
                        \<and> length (mean_response cos X sample_points)
                            = length sample_points * length (scales gen)
                        \<and> length (mean_response sin X sample_points)
                            = length sample_points * length (scales gen)) samples
         \<and> map_result (map_result (transform ds)) (one_pass ds) = Inr batches
         \<and> map embedding_of (concat batches)
             = map (\<lambda>X. mean_response cos X sample_points @ mean_response sin X sample_points)
                   (case targets of None \<Rightarrow> samples | Some t \<Rightarrow> take (length t) samples)
         \<and> list_all (list_all (\<lambda>e. length (embedding_of e)
                                     = 2 * length sample_points * length (scales gen))) batches
         \<and> (\<forall>n. \<exists>bs. pull n (make_iterator ds) = Inr bs \<and> set bs \<subseteq> set batches)"
proof -
  from flow_built [OF init fl] obtain idx samples where bs: "0 < batch_size"
    and ws: "wavelet_samples gen node_ids = Inr samples"
    and pass: "map_result (map_result (transform ds)) (one_pass ds)
               = Inr (chunks (nat batch_size) (flow_elements samples sample_points targets))"
    by blast
  let ?els = "flow_elements samples sample_points targets"
  let ?batches = "chunks (nat batch_size) ?els"
  let ?sel = "case targets of None \<Rightarrow> samples | Some t \<Rightarrow> take (length t) samples"
  let ?m = "length sample_points" and ?S = "length (scales gen)"
  have ord: "list_all2 (\<lambda>n X. wavelet_samples gen [n] = Inr [X]) node_ids samples"
    using ws by (rule wavelet_samples_order)
  have one: "has_shape X (length (eigen_vecs gen)) ?S
             \<and> length (mean_response cos X sample_points) = ?m * ?S
             \<and> length (mean_response sin X sample_points) = ?m * ?S
             \<and> empirical_characteristic_function X sample_points
                 = mean_response cos X sample_points @ mean_response sin X sample_points"
    if X: "X \<in> set samples" for X
  proof -
    have sh: "has_shape X (length (eigen_vecs gen)) ?S" and ne: "X \<noteq> []"
      using wavelet_samples_shape(2,3) [OF init k ws X] by simp_all
    have nc: "ncols X = ?S" using sh ne by (rule ncols_has_shape)
    show ?thesis
      using sh ecf_mean_response [OF sh] by (simp add: length_mean_response nc)
  qed
  have shapes: "list_all (\<lambda>X. has_shape X (length (eigen_vecs gen)) ?S
                        \<and> length (mean_response cos X sample_points) = ?m * ?S
                        \<and> length (mean_response sin X sample_points) = ?m * ?S) samples"
    unfolding list_all_iff using one by blast
  have sel: "set ?sel \<subseteq> set samples"
    by (cases targets) (auto dest: in_set_takeD)
  have cc: "concat ?batches = ?els"
    using bs by (simp add: concat_chunks)
  have e1: "map embedding_of ?els = map (\<lambda>X. empirical_characteristic_function X sample_points) ?sel"
    by (rule flow_elements_embeddings)
  have e2: "map (\<lambda>X. empirical_characteristic_function X sample_points) ?sel
            = map (\<lambda>X. mean_response cos X sample_points @ mean_response sin X sample_points) ?sel"
    using sel one by (intro map_cong refl) blast
  have emb: "map embedding_of (concat ?batches)
             = map (\<lambda>X. mean_response cos X sample_points @ mean_response sin X sample_points) ?sel"
    unfolding cc e1 e2 ..
  have len: "length (embedding_of e) = 2 * ?m * ?S" if e: "e \<in> set ?els" for e
  proof -
    have "embedding_of e \<in> set (map embedding_of ?els)" using e by simp
    then obtain X where X: "X \<in> set ?sel"
      and eq: "embedding_of e = mean_response cos X sample_points @ mean_response sin X sample_points"
      unfolding e1 e2 by auto
    have "X \<in> set samples" using X sel by blast
    then show ?thesis using one unfolding eq by simp
  qed
  have "list_all (\<lambda>e. length (embedding_of e) = 2 * ?m * ?S) ?els"
    unfolding list_all_iff using len by blast
  then have lens: "list_all (list_all (\<lambda>e. length (embedding_of e) = 2 * ?m * ?S)) ?batches"
    by (rule list_all_chunks)
  have pulls: "\<forall>n. \<exists>bs. pull n (make_iterator ds) = Inr bs \<and> set bs \<subseteq> set ?batches"
  proof
    fix n
    have "pull n (make_iterator ds) = Inr (pull_slices n ?batches (forever ds) ?batches)"
      using pass by (rule pull_batches)
    moreover have "set (pull_slices n ?batches (forever ds) ?batches) \<subseteq> set ?batches"
      using pull_slices_subset [of n ?batches "forever ds" ?batches] by simp
    ultimately show "\<exists>bs. pull n (make_iterator ds) = Inr bs \<and> set bs \<subseteq> set ?batches"
      by blast
  qed
  show ?thesis using ws ord shapes pass emb lens pulls by blast
qed

theorem embedding_length_witness:
  "init path_eigs (StellarGraphObject path_graph) (Explicit [1, 2]) 3 (- 1) = Inr (path_generator [1, 2])
   \<and> eigen_vals (path_generator [1, 2]) \<noteq> []
   \<and> flow (path_generator [1, 2]) [10, 20] [0, 1] 2 None False 1
       = Inr (Dataset [[Row [1], Row [- 2]]] path_stage False)
   \<and> pull 1 (make_iterator (Dataset [[Row [1], Row [- 2]]] path_stage False))
       = Inr [[Embedding (mean_response cos path_samples_10 [0, 1] @ mean_response sin path_samples_10 [0, 1]),
               Embedding (mean_response cos path_samples_20 [0, 1] @ mean_response sin path_samples_20 [0, 1])]]
   \<and> length (mean_response cos path_samples_20 [0, 1] @ mean_response sin path_samples_20 [0, 1]) = 8"
proof -
  let ?ds = "Dataset [[Row [1], Row [- 2]]] path_stage False"
  let ?e10 = "empirical_characteristic_function path_samples_10 [0, 1]"
  let ?e20 = "empirical_characteristic_function path_samples_20 [0, 1]"
  have i: "init path_eigs (StellarGraphObject path_graph) (Explicit [1, 2]) 3 (- 1)
           = Inr (path_generator [1, 2])"
    by (simp add: init_path_explicit)
  have k: "eigen_vals (path_generator [1, 2]) \<noteq> []" by simp
  have f: "flow (path_generator [1, 2]) [10, 20] [0, 1] 2 None False 1 = Inr ?ds"
    by (rule flow_path)
  have p: "map_result (map_result (transform ?ds)) (one_pass ?ds) = Inr [[Embedding ?e10, Embedding ?e20]]"
    by (simp add: path_stage_values)
  have q: "pull 1 (make_iterator ?ds) = Inr [[Embedding ?e10, Embedding ?e20]]"
    by (simp add: make_iterator_def path_stage_values)
  from embedding_length [OF i k f] obtain samples batches where
    ws: "wavelet_samples (path_generator [1, 2]) [10, 20] = Inr samples"
    and pass: "map_result (map_result (transform ?ds)) (one_pass ?ds) = Inr batches"
    and emb: "map embedding_of (concat batches)
              = map (\<lambda>X. mean_response cos X [0, 1] @ mean_response sin X [0, 1])
                    (case None :: nat list option of None \<Rightarrow> samples | Some t \<Rightarrow> take (length t) samples)"
    and lens: "list_all (list_all (\<lambda>e. length (embedding_of e)
                 = 2 * length [0, 1 :: real] * length (scales (path_generator [1, 2])))) batches"
    by blast
  have s: "samples = [path_samples_10, path_samples_20]"
    using ws by (simp add: wavelet_samples_path)
  have b: "batches = [[Embedding ?e10, Embedding ?e20]]"
    using pass unfolding p by simp
  have e: "?e10 = mean_response cos path_samples_10 [0, 1] @ mean_response sin path_samples_10 [0, 1]"
    "?e20 = mean_response cos path_samples_20 [0, 1] @ mean_response sin path_samples_20 [0, 1]"
    using emb unfolding s b by simp_all
  have l: "length ?e20 = 8" using lens unfolding b by simp
  show ?thesis
    using i k f q l unfolding e by simp
qed

subsection \<open>Node ids that the generator does not know\<close>

text \<open>
  Claim C6, as stated, fails in one part: the error does not name the node id.  The ids 7
  and 9 are not nodes of the path graph, and \<open>flow\<close> raises for both the same TypeError,
  that of the conversion of \<open>None\<close> to int64, whose message has no id in it.
\<close>

theorem flow_absent_node_id_counterexample:
  "node_index_dict (path_generator [1, 2]) 7 = None
   \<and> node_index_dict (path_generator [1, 2]) 9 = None
   \<and> flow (path_generator [1, 2]) [7] [0, 1] 2 (None :: nat list option) True 1 = Inl none_to_int64_error
   \<and> flow (path_generator [1, 2]) [9] [0, 1] 2 (None :: nat list option) True 1 = Inl none_to_int64_error
   \<and> none_to_int64_error
       = TypeError ''int() argument must be a string, a bytes-like object or a number, not NoneType''"
  by (simp add: flow_absent path_lookup) (simp add: none_to_int64_error_def)

text \<open>
  Claim C6, amended.  When one of the node ids is absent from the node index mapping, the
  call of \<open>flow\<close> raises the TypeError of the conversion of \<open>None\<close> to int64, whatever
  the other arguments are: no dataset is returned, and so no embedding for that id.
\<close>

theorem flow_absent_node_id:
  assumes "n \<in> set node_ids" "node_index_dict gen n = None"
  shows "flow gen node_ids sample_points batch_size targets repeat threads = Inl none_to_int64_error"
  using assms by (rule flow_absent)

theorem flow_absent_node_id_witness:
  "(20::nat) \<in> set [10, 7, 20] \<and> (7::nat) \<in> set [10, 7, 20]
   \<and> node_index_dict (path_generator [1, 2]) 7 = None
   \<and> flow (path_generator [1, 2]) [10, 7, 20] [0, 1] 2 (None :: nat list option) False 1
       = Inl none_to_int64_error"
proof -
  have a: "(7::nat) \<in> set [10, 7, 20]" by simp
  have b: "node_index_dict (path_generator [1, 2]) 7 = None" by (simp add: path_lookup)
  show ?thesis
    using flow_absent_node_id [OF a b, of "[0, 1]" 2 "None :: nat list option" False 1] a b by simp
qed

text \<open>
  Claim C10.  When the call of \<open>flow\<close> returns a dataset, every node id has been
  resolved to the index of a row of the eigenvector matrix, and the slices of the dataset
  are these rows, with the targets when there are targets.  The stage of the dataset is made
  of the cache and of the sample points: iterating applies it to the slices, batch after
  batch, and so does not raise the TypeError of the lookup.  For a generator that the
  constructor returned, iterating does not raise at all.  When a node id is absent from the
  mapping, the call of \<open>flow\<close> itself raises that TypeError.
\<close>

theorem flow_lookup_eager:
  "(flow gen node_ids sample_points batch_size targets repeat threads = Inr ds \<longrightarrow>
      (\<exists>idx. list_all2 (\<lambda>n i. node_index_dict gen n = Some i \<and> i < length (eigen_vecs gen)) node_ids idx
            \<and> one_pass ds = chunks (nat batch_size)
                               (flow_slices (map (\<lambda>i. eigen_vecs gen ! i) idx) targets)
            \<and> transform ds = element_stage (node_stage (Ues gen) sample_points) Inr
            \<and> forever ds = repeat)
      \<and> (\<forall>k. pull k (make_iterator ds)
                = map_result (map_result (element_stage (node_stage (Ues gen) sample_points) Inr))
                    (pull_slices k (one_pass ds) repeat (one_pass ds))
              \<and> pull k (make_iterator ds) \<noteq> Inl none_to_int64_error))
   \<and> (init eigs G sc ns ne = Inr gen
        \<and> flow gen node_ids sample_points batch_size targets repeat threads = Inr ds \<longrightarrow>
        (\<forall>k. \<exists>bs. pull k (make_iterator ds) = Inr bs))
   \<and> (n \<in> set node_ids \<and> node_index_dict gen n = None \<longrightarrow>
        flow gen node_ids sample_points batch_size targets repeat threads = Inl none_to_int64_error)"
proof (intro conjI impI)
  assume fl: "flow gen node_ids sample_points batch_size targets repeat threads = Inr ds"
  then obtain idx where lk: "node_lookup (node_index_dict gen) node_ids = Inr idx"
    and rg: "list_all (\<lambda>i. i < length (eigen_vecs gen)) idx"
    and ds: "ds = Dataset (chunks (nat batch_size)
                             (flow_slices (map (\<lambda>i. eigen_vecs gen ! i) idx) targets))
                          (element_stage (node_stage (Ues gen) sample_points) Inr) repeat"
    unfolding flow_Inr by blast
  have lk': "list_all2 (\<lambda>n i. node_index_dict gen n = Some i) node_ids idx"
    using lk by (simp only: node_lookup_Inr)
  have "list_all2 (\<lambda>n i. node_index_dict gen n = Some i \<and> i < length (eigen_vecs gen)) node_ids idx"
    unfolding list_all2_conv_all_nth
  proof (intro conjI allI impI)
    show "length node_ids = length idx" using lk' by (rule list_all2_lengthD)
  next
    fix j assume j: "j < length node_ids"
    show "node_index_dict gen (node_ids ! j) = Some (idx ! j)"
      using list_all2_nthD [OF lk' j] .
    show "idx ! j < length (eigen_vecs gen)"
      using rg j list_all2_lengthD [OF lk'] by (simp add: list_all_length)
  qed
  then show "\<exists>idx. list_all2 (\<lambda>n i. node_index_dict gen n = Some i \<and> i < length (eigen_vecs gen)) node_ids idx
            \<and> one_pass ds = chunks (nat batch_size)
                               (flow_slices (map (\<lambda>i. eigen_vecs gen ! i) idx) targets)
            \<and> transform ds = element_stage (node_stage (Ues gen) sample_points) Inr
            \<and> forever ds = repeat"
    using ds by auto
  have eq: "pull k (make_iterator ds)
            = map_result (map_result (element_stage (node_stage (Ues gen) sample_points) Inr))
                (pull_slices k (one_pass ds) repeat (one_pass ds))" for k
    using pull_eq [of k ds "one_pass ds"] by (simp add: make_iterator_def ds)
  show "\<forall>k. pull k (make_iterator ds)
                = map_result (map_result (element_stage (node_stage (Ues gen) sample_points) Inr))
                    (pull_slices k (one_pass ds) repeat (one_pass ds))
              \<and> pull k (make_iterator ds) \<noteq> Inl none_to_int64_error"
    using eq by (simp add: stage_not_lookup_error)
next
  assume a: "init eigs G sc ns ne = Inr gen
             \<and> flow gen node_ids sample_points batch_size targets repeat threads = Inr ds"
  then have init: "init eigs G sc ns ne = Inr gen"
    and fl: "flow gen node_ids sample_points batch_size targets repeat threads = Inr ds"
    by simp_all
  from flow_built [OF init fl] obtain idx samples where
    "map_result (map_result (transform ds)) (one_pass ds)
       = Inr (chunks (nat batch_size) (flow_elements samples sample_points targets))"
    by blast
  then show "\<forall>k. \<exists>bs. pull k (make_iterator ds) = Inr bs"
    using pull_batches by blast
next
  assume "n \<in> set node_ids \<and> node_index_dict gen n = None"
  then show "flow gen node_ids sample_points batch_size targets repeat threads = Inl none_to_int64_error"
    by (intro flow_absent [of n]) simp_all
qed

theorem flow_lookup_eager_witness:
  "init path_eigs (StellarGraphObject path_graph) (Explicit [1, 2]) 3 (- 1) = Inr (path_generator [1, 2])
   \<and> flow (path_generator [1, 2]) [10, 20] [0, 1] 2 None False 1
       = Inr (Dataset [[Row [1], Row [- 2]]] path_stage False)
   \<and> list_all2 (\<lambda>n i. node_index_dict (path_generator [1, 2]) n = Some i
                       \<and> i < length (eigen_vecs (path_generator [1, 2]))) [10, 20] [0, 1]
   \<and> (\<forall>k. \<exists>bs. pull k (make_iterator (Dataset [[Row [1], Row [- 2]]] path_stage False)) = Inr bs)
   \<and> (7::nat) \<in> set [7] \<and> node_index_dict (path_generator [1, 2]) 7 = None
   \<and> flow (path_generator [1, 2]) [7] [0, 1] 2 (None :: nat list option) False 1
       = Inl none_to_int64_error"
proof -
  let ?gen = "path_generator [1, 2]"
  let ?ds = "Dataset [[Row [1], Row [- 2]]] path_stage False"
  have i: "init path_eigs (StellarGraphObject path_graph) (Explicit [1, 2]) 3 (- 1) = Inr ?gen"
    by (simp add: init_path_explicit)
  have f: "flow ?gen [10, 20] [0, 1] 2 None False 1 = Inr ?ds"
    by (rule flow_path)
  note T = flow_lookup_eager [of ?gen "[10, 20]" "[0, 1]" 2 None False 1 ?ds
      path_eigs "StellarGraphObject path_graph" "Explicit [1, 2]" 3 "- 1" 7]
  have l: "list_all2 (\<lambda>n i. node_index_dict ?gen n = Some i \<and> i < length (eigen_vecs ?gen))
             [10, 20] [0, 1]"
    by (simp add: path_lookup)
  have 1: "\<forall>k. \<exists>bs. pull k (make_iterator ?ds) = Inr bs"
    using T i f by blast
  have a: "(7::nat) \<in> set [7]" "node_index_dict ?gen 7 = None"
    by (simp_all add: path_lookup)
  have 2: "flow ?gen [7] [0, 1] 2 (None :: nat list option) False 1 = Inl none_to_int64_error"
    using flow_lookup_eager [of ?gen "[7]" "[0, 1]" 2 "None :: nat list option" False 1 ?ds
        path_eigs "StellarGraphObject path_graph" "Explicit [1, 2]" 3 "- 1" 7] a
    by blast
  show ?thesis using i f l 1 a 2 by simp
qed

subsection \<open>Repeating and finite datasets\<close>

text \<open>
  Claim C7, as stated, fails in two places.  With no node id the dataset of
  \<^verbatim>\<open>repeat=True\<close> yields nothing: it is not infinite.  And with targets shorter than
  the node ids, \<^verbatim>\<open>zip\<close> stops with the targets: the finite dataset is not a full pass
  over the node ids.
\<close>

theorem repeat_semantics_counterexample:
  "flow (path_generator [1, 2]) [] [0, 1] 2 None True 1 = Inr (Dataset [] path_stage True)
   \<and> pull 1 (make_iterator (Dataset [] path_stage True)) = Inr []
   \<and> flow (path_generator [1, 2]) [10, 20] [0, 1] 2 (Some [5]) False 1
       = Inr (Dataset [[RowTarget [1] 5]] path_stage False)
   \<and> pull 2 (make_iterator (Dataset [[RowTarget [1] 5]] path_stage False))
       = Inr [[WithTarget (empirical_characteristic_function path_samples_10 [0, 1]) 5]]"
  by (simp add: flow_path_empty flow_path_target make_iterator_def path_stage_values
      numeral_2_eq_2)

text \<open>
  Claim C7, amended.  Let \<open>flow\<close> return a dataset for a generator that the constructor
  returned and at least one node id, with \<^verbatim>\<open>repeat=True\<close> and with targets, if any,
  as many as the node ids.  Then the same call with \<^verbatim>\<open>repeat=False\<close> returns the
  finite dataset of the same slices and the same stage: iterating it yields the batches of
  one pass once and ends, and the embeddings of the pass are those of the node ids, in the
  order of the node ids.  Iterating the repeating dataset never ends, and twice as many
  batches as one pass has are the batches of one pass twice: the one-pass sequence of
  embeddings twice concatenated, \<open>2 * len(node_ids)\<close> embeddings.
\<close>

theorem repeat_semantics:
  assumes init: "init eigs G sc ns ne = Inr gen"
    and fl: "flow gen node_ids sample_points batch_size targets True threads = Inr ds"
    and ne: "node_ids \<noteq> []"
    and tg: "case targets of None \<Rightarrow> True | Some t \<Rightarrow> length t = length node_ids"
  shows "\<exists>samples batches.
           wavelet_samples gen node_ids = Inr samples
         \<and> list_all2 (\<lambda>n X. wavelet_samples gen [n] = Inr [X]) node_ids samples
         \<and> flow gen node_ids sample_points batch_size targets False threads
             = Inr (Dataset (one_pass ds) (transform ds) False)
         \<and> map_result (map_result (transform ds)) (one_pass ds) = Inr batches
         \<and> (\<forall>n. pull n (make_iterator (Dataset (one_pass ds) (transform ds) False))
                  = Inr (take n batches))
         \<and> map embedding_of (concat batches)
             = map (\<lambda>X. empirical_characteristic_function X sample_points) samples
         \<and> (\<forall>n. \<exists>bs. pull n (make_iterator ds) = Inr bs \<and> length bs = n)
         \<and> pull (2 * length batches) (make_iterator ds) = Inr (batches @ batches)
         \<and> length (concat (batches @ batches)) = 2 * length node_ids"
proof -
  from fl obtain idx where lk: "node_lookup (node_index_dict gen) node_ids = Inr idx"
    and rg: "list_all (\<lambda>i. i < length (eigen_vecs gen)) idx"
    and ok: "valid_flow_arguments batch_size threads"
    and ds: "ds = Dataset (chunks (nat batch_size)
                             (flow_slices (map (\<lambda>i. eigen_vecs gen ! i) idx) targets))
                          (element_stage (node_stage (Ues gen) sample_points) Inr) True"
    unfolding flow_Inr by blast
  from flow_built [OF init fl] obtain idx' samples where bs: "0 < batch_size"
    and ws: "wavelet_samples gen node_ids = Inr samples"
    and pass: "map_result (map_result (transform ds)) (one_pass ds)
               = Inr (chunks (nat batch_size) (flow_elements samples sample_points targets))"
    by blast
  let ?els = "flow_elements samples sample_points targets"
  let ?batches = "chunks (nat batch_size) ?els"
  let ?fin = "Dataset (one_pass ds) (transform ds) False"
  have rep: "forever ds" by (simp add: ds)
  have ord: "list_all2 (\<lambda>n X. wavelet_samples gen [n] = Inr [X]) node_ids samples"
    using ws by (rule wavelet_samples_order)
  have len: "length samples = length node_ids"
    using ord by (simp add: list_all2_lengthD)
  have fin: "flow gen node_ids sample_points batch_size targets False threads = Inr ?fin"
    unfolding flow_resolved [OF lk rg ok] by (simp add: ds)
  have "map_result (map_result (transform ?fin)) (one_pass ?fin) = Inr ?batches"
    using pass by simp
  then have "pull n (make_iterator ?fin) = Inr (pull_slices n ?batches (forever ?fin) ?batches)" for n
    by (rule pull_batches)
  then have one: "\<forall>n. pull n (make_iterator ?fin) = Inr (take n ?batches)"
    by (simp add: pull_slices_finite)
  have cc: "concat ?batches = ?els"
    using bs by (simp add: concat_chunks)
  have sel: "(case targets of None \<Rightarrow> samples | Some t \<Rightarrow> take (length t) samples) = samples"
    using tg len by (cases targets) simp_all
  have emb: "map embedding_of (concat ?batches)
             = map (\<lambda>X. empirical_characteristic_function X sample_points) samples"
    unfolding cc flow_elements_embeddings sel ..
  have lel: "length ?els = length node_ids"
    using arg_cong [OF emb, of length] by (simp add: cc len)
  then have "?els \<noteq> []" using ne by auto
  then have nonempty: "?batches \<noteq> []"
    using cc by auto
  have pl: "pull n (make_iterator ds) = Inr (pull_slices n ?batches True ?batches)" for n
    using pull_batches [OF pass, of n] rep by simp
  have inf: "\<forall>n. \<exists>bs. pull n (make_iterator ds) = Inr bs \<and> length bs = n"
    using pl pull_slices_length [OF nonempty] by simp
  have two: "pull (2 * length ?batches) (make_iterator ds) = Inr (?batches @ ?batches)"
    using pl pull_slices_two_passes [OF nonempty] by simp
  have cnt: "length (concat (?batches @ ?batches)) = 2 * length node_ids"
    using lel by (simp add: cc)
  show ?thesis using ws ord fin pass one emb inf two cnt by blast
qed

theorem repeat_semantics_witness:
  "init path_eigs (StellarGraphObject path_graph) (Explicit [1, 2]) 3 (- 1) = Inr (path_generator [1, 2])
   \<and> flow (path_generator [1, 2]) [10, 20] [0, 1] 2 None True 1
       = Inr (Dataset [[Row [1], Row [- 2]]] path_stage True)
   \<and> [10, 20 :: nat] \<noteq> []
   \<and> pull 2 (make_iterator (Dataset [[Row [1], Row [- 2]]] path_stage True))
       = Inr [[Embedding (empirical_characteristic_function path_samples_10 [0, 1]),
               Embedding (empirical_characteristic_function path_samples_20 [0, 1])],
              [Embedding (empirical_characteristic_function path_samples_10 [0, 1]),
               Embedding (empirical_characteristic_function path_samples_20 [0, 1])]]
   \<and> flow (path_generator [1, 2]) [10, 20] [0, 1] 2 None False 1
       = Inr (Dataset [[Row [1], Row [- 2]]] path_stage False)
   \<and> pull 2 (make_iterator (Dataset [[Row [1], Row [- 2]]] path_stage False))
       = Inr [[Embedding (empirical_characteristic_function path_samples_10 [0, 1]),
               Embedding (empirical_characteristic_function path_samples_20 [0, 1])]]"
proof -
  let ?ds = "Dataset [[Row [1], Row [- 2]]] path_stage True"
  let ?b = "[Embedding (empirical_characteristic_function path_samples_10 [0, 1]),
             Embedding (empirical_characteristic_function path_samples_20 [0, 1])]"
  have i: "init path_eigs (StellarGraphObject path_graph) (Explicit [1, 2]) 3 (- 1)
           = Inr (path_generator [1, 2])"
    by (simp add: init_path_explicit)
  have f: "flow (path_generator [1, 2]) [10, 20] [0, 1] 2 None True 1 = Inr ?ds"
    by (rule flow_path)
  have ne: "[10, 20 :: nat] \<noteq> []" by simp
  have tg: "case (None :: nat list option) of None \<Rightarrow> True | Some t \<Rightarrow> length t = length [10, 20 :: nat]"
    by simp
  have p: "map_result (map_result (transform ?ds)) (one_pass ?ds) = Inr [?b]"
    by (simp add: path_stage_values)
  from repeat_semantics [OF i f ne tg] obtain batches where
    fin: "flow (path_generator [1, 2]) [10, 20] [0, 1] 2 None False 1
          = Inr (Dataset (one_pass ?ds) (transform ?ds) False)"
    and pass: "map_result (map_result (transform ?ds)) (one_pass ?ds) = Inr batches"
    and one: "\<forall>n. pull n (make_iterator (Dataset (one_pass ?ds) (transform ?ds) False))
                   = Inr (take n batches)"
    and two: "pull (2 * length batches) (make_iterator ?ds) = Inr (batches @ batches)"
    by blast
  have b: "batches = [?b]" using pass unfolding p by simp
  have 1: "pull 2 (make_iterator ?ds) = Inr [?b, ?b]"
    using two unfolding b by simp
  have 2: "pull 2 (make_iterator (Dataset [[Row [1], Row [- 2]]] path_stage False)) = Inr [?b]"
    using one [rule_format, of 2] unfolding b by simp
  show ?thesis using i f ne 1 fin 2 by simp
qed

subsection \<open>Explicit scales\<close>

lemma init_InrE:
  assumes "init eigs G sc ns ne = Inr gen"
  obtains g t0 L where "G = StellarGraphObject g"
    and "node_types g = [t0]"
    and "laplacian_of (to_adjacency_matrix g None) = Inr L"
    and "eigs L (requested_k ne L) = Inr (eigen_vals gen, eigen_vecs gen)"
    and "chosen_scales sc (eigen_vals gen) ns = Inr (scales gen)"
    and "wavelet_cache (eigen_vecs gen) (eigen_vals gen) (scales gen) = Inr (Ues gen)"
    and "node_list gen = nodes_of_type g t0"
    and "Aadj gen = to_adjacency_matrix g (Some (nodes_of_type g t0))"
    and "node_index_dict gen = dict_zip (node_list gen) [0..<length (node_list gen)]"
  using init_Inr [OF assms] by (elim exE conjE) (rule that)

text \<open>
  Claim C9, as stated, fails for the empty sequence of scales: \<^verbatim>\<open>np.dstack\<close> of an
  empty list raises a ValueError, while the same call with the scales 1 and 2 succeeds.
\<close>

theorem explicit_scales_counterexample:
  "init path_eigs (StellarGraphObject path_graph) (Explicit []) 3 (- 1)
     = Inl (ValueError ''need at least one array to concatenate'')
   \<and> init path_eigs (StellarGraphObject path_graph) (Explicit [1, 2]) 3 (- 1)
     = Inr (path_generator [1, 2])"
proof -
  have nt: "node_types path_graph = [''default'']" by (simp add: path_graph_def)
  have "init path_eigs (StellarGraphObject path_graph) (Explicit []) 3 (- 1)
     = Inl (ValueError ''need at least one array to concatenate'')"
    unfolding init_single_type [OF nt]
    by (simp add: path_graph_def laplacian_path requested_k_def path_eigs_def chosen_scales_def
        wavelet_cache_def dstack_def)
  then show ?thesis by (simp add: init_path_explicit)
qed

text \<open>
  Claim C9, amended.  When the constructor succeeds with an explicit sequence of scales,
  it succeeds with every other non-empty sequence of scales, whatever the values, their
  order and \<open>num_scales\<close>; the scales of the generator are the given ones, its cache has
  the entries \<open>U[i][j] * exp (- scale\<^sub>s * eigenvalue\<^sub>j)\<close> for these scales, and nothing
  else of the generator depends on the scales or on \<open>num_scales\<close>.
\<close>

theorem explicit_scales_verbatim:
  assumes "init eigs G (Explicit ss) ns ne = Inr gen" and "ss' \<noteq> []"
  shows "scales gen = ss
         \<and> Ues gen = cache_entries (eigen_vecs gen) (eigen_vals gen) ss
         \<and> init eigs G (Explicit ss') ns' ne
             = Inr (gen\<lparr>scales := ss', Ues := cache_entries (eigen_vecs gen) (eigen_vals gen) ss'\<rparr>)"
proof -
  from assms(1) obtain g t0 L where G: "G = StellarGraphObject g"
    and nt: "node_types g = [t0]"
    and L: "laplacian_of (to_adjacency_matrix g None) = Inr L"
    and ei: "eigs L (requested_k ne L) = Inr (eigen_vals gen, eigen_vecs gen)"
    and cs: "chosen_scales (Explicit ss) (eigen_vals gen) ns = Inr (scales gen)"
    and wc: "wavelet_cache (eigen_vecs gen) (eigen_vals gen) (scales gen) = Inr (Ues gen)"
    and nl: "node_list gen = nodes_of_type g t0"
    and aa: "Aadj gen = to_adjacency_matrix g (Some (nodes_of_type g t0))"
    and ni: "node_index_dict gen = dict_zip (node_list gen) [0..<length (node_list gen)]"
    by (rule init_InrE)
  have sc: "scales gen = ss" using cs by (simp add: chosen_scales_def)
  have rect: "list_all (\<lambda>r. length r = length (eigen_vals gen)) (eigen_vecs gen)"
    and U: "Ues gen = cache_entries (eigen_vecs gen) (eigen_vals gen) ss"
    using wc unfolding sc by (simp_all add: wavelet_cache_Inr)
  have wc': "wavelet_cache (eigen_vecs gen) (eigen_vals gen) ss'
             = Inr (cache_entries (eigen_vecs gen) (eigen_vals gen) ss')"
    using assms(2) rect by (rule wavelet_cache_rect)
  have "init eigs G (Explicit ss') ns' ne
        = Inr \<lparr>node_list = nodes_of_type g t0,
                Aadj = to_adjacency_matrix g (Some (nodes_of_type g t0)),
                node_index_dict = dict_zip (nodes_of_type g t0) [0..<length (nodes_of_type g t0)],
                eigen_vals = eigen_vals gen, eigen_vecs = eigen_vecs gen, scales = ss',
                Ues = cache_entries (eigen_vecs gen) (eigen_vals gen) ss'\<rparr>"
    unfolding G init_single_type [OF nt] L bind_simps ei
    by (simp add: chosen_scales_def wc')
  also have "\<lparr>node_list = nodes_of_type g t0,
                Aadj = to_adjacency_matrix g (Some (nodes_of_type g t0)),
                node_index_dict = dict_zip (nodes_of_type g t0) [0..<length (nodes_of_type g t0)],
                eigen_vals = eigen_vals gen, eigen_vecs = eigen_vecs gen, scales = ss',
                Ues = cache_entries (eigen_vecs gen) (eigen_vals gen) ss'\<rparr>
             = gen\<lparr>scales := ss', Ues := cache_entries (eigen_vecs gen) (eigen_vals gen) ss'\<rparr>"
    by (rule GraphWaveGenerator.equality) (simp_all add: nl aa ni)
  finally show ?thesis using sc U by simp
qed

theorem explicit_scales_verbatim_witness:
  "init path_eigs (StellarGraphObject path_graph) (Explicit [1, 2]) 3 (- 1) = Inr (path_generator [1, 2])
   \<and> [0, - 1, 5, 2 :: real] \<noteq> []
   \<and> init path_eigs (StellarGraphObject path_graph) (Explicit [0, - 1, 5, 2]) 7 (- 1)
       = Inr (path_generator [0, - 1, 5, 2])
   \<and> scales (path_generator [0, - 1, 5, 2]) = [0, - 1, 5, 2]"
proof -
  have i: "init path_eigs (StellarGraphObject path_graph) (Explicit [1, 2]) 3 (- 1)
           = Inr (path_generator [1, 2])"
    by (simp add: init_path_explicit)
  have n: "[0, - 1, 5, 2 :: real] \<noteq> []" by simp
  have "(path_generator [1, 2])\<lparr>scales := [0, - 1, 5, 2],
           Ues := cache_entries (eigen_vecs (path_generator [1, 2]))
                    (eigen_vals (path_generator [1, 2])) [0, - 1, 5, 2]\<rparr>
        = path_generator [0, - 1, 5, 2]"
    by (simp add: path_generator_def cache_entries_def)
  then show ?thesis
    using explicit_scales_verbatim [OF i n, of 7] i by simp
qed

end
